theory Spec2Isabelle
  imports Main "HOL-Library.Word" "HOL-Library.Multiset" "HOL-Library.List_Lexorder"
begin

section \<open>Data model of \<^verbatim>\<open>btcutil/psbt/partial_output.go\<close>\<close>

text \<open>
  A Go \<^verbatim>\<open>[]byte\<close> that the code tests against \<^verbatim>\<open>nil\<close> is a \<open>byte list option\<close>
  (\<open>None\<close> is \<^verbatim>\<open>nil\<close>, \<open>Some []\<close> an empty slice that is not \<^verbatim>\<open>nil\<close>). The two
  derivation slices are lists: the code only ranges over them, appends to them and sorts
  them, so a \<^verbatim>\<open>nil\<close> slice and an empty one behave alike and both are \<open>[]\<close>.
\<close>

type_synonym byte = "8 word"
type_synonym uint32 = "32 word"

datatype error =
    ErrDuplicateKey
  | ErrInvalidKeydata
  | ErrInvalidPsbtFormat
  | ErrTruncated
  | ErrOversizedValue
  | ErrMalformed
  | ErrShortWrite

record Bip32Derivation =
  PubKey :: "byte list"
  MasterKeyFingerprint :: uint32
  Bip32Path :: "uint32 list"

record TaprootBip32Derivation =
  XOnlyPubKey :: "byte list"
  LeafHashes :: "byte list list"
  TapMasterKeyFingerprint :: uint32
  TapBip32Path :: "uint32 list"

record POutput =
  RedeemScript :: "byte list option"
  WitnessScript :: "byte list option"
  Bip32Derivation :: "Bip32Derivation list"
  TaprootInternalKey :: "byte list option"
  TaprootTapTree :: "byte list option"
  TaprootBip32Derivation :: "TaprootBip32Derivation list"

text \<open>
  The constants the file uses and does not declare: the six output type codes, the
  separator of the key-value primitive and the bound on a value's length. They are
  parameters of the model. The type codes are bytes: \<^verbatim>\<open>serialize\<close> converts each of them
  with \<^verbatim>\<open>uint8(...)\<close>.
\<close>

record params =
  RedeemScriptOutputType :: byte
  WitnessScriptOutputType :: byte
  Bip32DerivationOutputType :: byte
  TaprootInternalKeyOutputType :: byte
  TaprootTapTreeType :: byte
  TaprootBip32DerivationOutputType :: byte
  Separator :: byte
  MaxPsbtValueLength :: nat

definition NewPsbtOutput ::
  "byte list option \<Rightarrow> byte list option \<Rightarrow> Bip32Derivation list \<Rightarrow> POutput" where
  "NewPsbtOutput redeemScript witnessScript bip32Derivation =
     \<lparr>RedeemScript = redeemScript, WitnessScript = witnessScript,
      Bip32Derivation = bip32Derivation, TaprootInternalKey = None,
      TaprootTapTree = None, TaprootBip32Derivation = []\<rparr>"

section \<open>The key-value primitive and the field codecs\<close>

text \<open>Little-endian bytes of a number, and back.\<close>

fun to_le :: "nat \<Rightarrow> nat \<Rightarrow> byte list" where
  "to_le 0 n = []"
| "to_le (Suc k) n = of_nat (n mod 256) # to_le k (n div 256)"

fun from_le :: "byte list \<Rightarrow> nat" where
  "from_le [] = 0"
| "from_le (b # bs) = unat b + 256 * from_le bs"

text \<open>
  Modelled from the spec: \<^verbatim>\<open>wire.WriteVarInt\<close> (package \<^verbatim>\<open>wire\<close> is not among the
  sources). The spec says that all lengths use the format's native variable-length
  integer encoding; that encoding is: a value below \<open>0xfd\<close> is one byte; otherwise a
  marker byte \<open>0xfd\<close>, \<open>0xfe\<close> or \<open>0xff\<close> and the value in 2, 4 or 8 little-endian
  bytes. A Go length is a \<^verbatim>\<open>uint64\<close> here, hence the \<open>mod 2 ^ 64\<close>.
\<close>

definition WriteVarInt :: "nat \<Rightarrow> byte list" where
  "WriteVarInt n =
     (let v = n mod 2 ^ 64 in
      if v < 0xfd then [of_nat v]
      else if v \<le> 0xffff then 0xfd # to_le 2 v
      else if v \<le> 0xffffffff then 0xfe # to_le 4 v
      else 0xff # to_le 8 v)"

text \<open>
  Modelled from the spec: \<^verbatim>\<open>wire.ReadVarInt\<close>, the inverse of \<^verbatim>\<open>wire.WriteVarInt\<close>;
  the result is the integer and the rest of the stream, or \<open>Truncated\<close> when the stream
  ends early.
\<close>

definition ReadVarInt :: "byte list \<Rightarrow> error + nat \<times> byte list" where
  "ReadVarInt r =
     (case r of
        [] \<Rightarrow> Inl ErrTruncated
      | b # r1 \<Rightarrow>
          if b < 0xfd then Inr (unat b, r1)
          else
            let k = (if b = 0xfd then 2 else if b = 0xfe then 4 else 8) in
            if length r1 < k then Inl ErrTruncated
            else Inr (from_le (take k r1), drop k r1))"

text \<open>
  Modelled from the spec: \<^verbatim>\<open>wire.ReadVarBytes\<close>, the spec's \<open>readValue\<close>: it reads a
  length-prefixed byte blob bounded by \<open>maxAllowed\<close>, fails with \<open>OversizedValue\<close> if the
  declared length exceeds the bound and with \<open>Truncated\<close> if the stream ends early. The
  blob it returns is never \<^verbatim>\<open>nil\<close>.
\<close>

definition ReadVarBytes :: "byte list \<Rightarrow> nat \<Rightarrow> error + byte list \<times> byte list" where
  "ReadVarBytes r maxAllowed =
     (case ReadVarInt r of
        Inl err \<Rightarrow> Inl err
      | Inr (n, r1) \<Rightarrow>
          if n > maxAllowed then Inl ErrOversizedValue
          else if length r1 < n then Inl ErrTruncated
          else Inr (take n r1, drop n r1))"

text \<open>
  Modelled from the spec: \<^verbatim>\<open>getKey\<close>, the spec's \<open>readField\<close> (its file is not among
  the sources). It reads one type byte; if that byte is the reserved separator it signals
  the end of the map, as the key \<open>-1\<close> that \<^verbatim>\<open>deserialize\<close> tests for, and reads no
  further. Otherwise it reads the rest of the key, length-prefixed, as the key data; empty
  key data is \<^verbatim>\<open>nil\<close>, not a zero-length buffer.
\<close>

definition getKey :: "params \<Rightarrow> byte list \<Rightarrow> error + int \<times> byte list option \<times> byte list" where
  "getKey p r =
     (case r of
        [] \<Rightarrow> Inl ErrTruncated
      | b # r1 \<Rightarrow>
          if b = Separator p then Inr (- 1, None, r1)
          else
            (case ReadVarInt r1 of
               Inl err \<Rightarrow> Inl err
             | Inr (n, r2) \<Rightarrow>
                 if length r2 < n then Inl ErrTruncated
                 else Inr (uint b, if n = 0 then None else Some (take n r2), drop n r2)))"

text \<open>
  The \<^verbatim>\<open>io.Writer\<close> handed to \<^verbatim>\<open>serialize\<close>: the bytes written so far, and the room
  the writer has (\<open>None\<close>: it never fails, as a \<^verbatim>\<open>bytes.Buffer\<close>). A write that does not
  fit fails; the caller then discards the stream.
\<close>

record writer =
  written :: "byte list"
  room :: "nat option"

definition Write :: "writer \<Rightarrow> byte list \<Rightarrow> error + writer" where
  "Write w bs =
     (case room w of
        None \<Rightarrow> Inr (w\<lparr>written := written w @ bs\<rparr>)
      | Some c \<Rightarrow>
          if length bs \<le> c
          then Inr (w\<lparr>written := written w @ bs, room := Some (c - length bs)\<rparr>)
          else Inl ErrShortWrite)"

definition bytes_of :: "byte list option \<Rightarrow> byte list" where
  "bytes_of b = (case b of None \<Rightarrow> [] | Some bs \<Rightarrow> bs)"

text \<open>
  Modelled from the spec: the bytes of one record, as the spec's \<open>writeField\<close> lays them
  out: the type byte, the key data behind its length prefix (no key bytes when the key
  data is empty or absent), then the value behind its length prefix.
\<close>

definition kvPair :: "byte \<Rightarrow> byte list option \<Rightarrow> byte list \<Rightarrow> byte list" where
  "kvPair kt keydata val =
     kt # WriteVarInt (length (bytes_of keydata)) @ bytes_of keydata
        @ WriteVarInt (length val) @ val"

text \<open>
  Modelled from the spec: \<^verbatim>\<open>serializeKVPairWithType\<close>, the spec's \<open>writeField\<close>: it
  writes the record to the stream, and a failure of the stream is its error.
\<close>

definition serializeKVPairWithType ::
  "writer \<Rightarrow> byte \<Rightarrow> byte list option \<Rightarrow> byte list \<Rightarrow> error + writer" where
  "serializeKVPairWithType w kt keydata val = Write w (kvPair kt keydata val)"

text \<open>
  Modelled from the spec: \<^verbatim>\<open>validatePubkey\<close>, the spec's \<open>validateCompressedPublicKey\<close>:
  true iff the length is 33 and the leading byte is a compressed-point prefix (2 or 3).
\<close>

definition validatePubkey :: "byte list \<Rightarrow> bool" where
  "validatePubkey pubKey \<longleftrightarrow> length pubKey = 33 \<and> (hd pubKey = 2 \<or> hd pubKey = 3)"

text \<open>
  Modelled from the spec: \<^verbatim>\<open>validateXOnlyPubkey\<close>, the spec's \<open>validateXOnlyPublicKey\<close>:
  true iff the length is exactly 32.
\<close>

definition validateXOnlyPubkey :: "byte list \<Rightarrow> bool" where
  "validateXOnlyPubkey pubKey \<longleftrightarrow> length pubKey = 32"

text \<open>A uint32 as four little-endian bytes, and a run of such bytes as uint32s.\<close>

definition put_uint32 :: "uint32 \<Rightarrow> byte list" where
  "put_uint32 x = to_le 4 (unat x)"

fun get_uint32s :: "byte list \<Rightarrow> uint32 list" where
  "get_uint32s (a # b # c # d # rest) = of_nat (from_le [a, b, c, d]) # get_uint32s rest"
| "get_uint32s _ = []"

text \<open>
  Modelled from the spec: \<^verbatim>\<open>readBip32Derivation\<close>, the spec's \<open>parseBip32Derivation\<close>: it
  fails with \<open>Malformed\<close> if the length is not \<open>4 + 4 * k\<close>; the first four bytes are the
  fingerprint, each path element after them is a little-endian uint32.
\<close>

definition readBip32Derivation :: "byte list \<Rightarrow> error + uint32 \<times> uint32 list" where
  "readBip32Derivation path =
     (if length path < 4 \<or> length path mod 4 \<noteq> 0 then Inl ErrMalformed
      else Inr (of_nat (from_le (take 4 path)), get_uint32s (drop 4 path)))"

text \<open>
  Modelled from the spec: \<^verbatim>\<open>SerializeBIP32Derivation\<close>, the serializer that the spec
  calls the pure inverse of \<open>parseBip32Derivation\<close>, producing the same byte layout.
\<close>

definition SerializeBIP32Derivation :: "uint32 \<Rightarrow> uint32 list \<Rightarrow> byte list" where
  "SerializeBIP32Derivation masterKeyFingerprint bip32Path =
     put_uint32 masterKeyFingerprint @ concat (map put_uint32 bip32Path)"

text \<open>The first \<open>n\<close> 32-byte hashes of a byte string.\<close>

fun get_hashes :: "nat \<Rightarrow> byte list \<Rightarrow> byte list list" where
  "get_hashes 0 bs = []"
| "get_hashes (Suc n) bs = take 32 bs # get_hashes n (drop 32 bs)"

text \<open>
  Modelled from the spec: \<^verbatim>\<open>readTaprootBip32Derivation\<close>, the spec's
  \<open>parseTaprootBip32Derivation\<close>. The value is the number of leaf hashes as a
  variable-length integer, that many 32-byte hashes, the 4-byte fingerprint and the path
  to the end; parsing fails with \<open>Malformed\<close> on any length mismatch.
\<close>

definition readTaprootBip32Derivation ::
  "byte list \<Rightarrow> byte list \<Rightarrow> error + TaprootBip32Derivation" where
  "readTaprootBip32Derivation xOnlyPubKey val =
     (case ReadVarInt val of
        Inl err \<Rightarrow> Inl ErrMalformed
      | Inr (numHashes, r1) \<Rightarrow>
          if length r1 < numHashes * 32 then Inl ErrMalformed
          else
            (case readBip32Derivation (drop (numHashes * 32) r1) of
               Inl err \<Rightarrow> Inl err
             | Inr (master, path) \<Rightarrow>
                 Inr \<lparr>XOnlyPubKey = xOnlyPubKey, LeafHashes = get_hashes numHashes r1,
                      TapMasterKeyFingerprint = master, TapBip32Path = path\<rparr>))"

text \<open>
  Modelled from the spec: \<^verbatim>\<open>serializeTaprootBip32Derivation\<close>, the inverse of
  \<open>parseTaprootBip32Derivation\<close> with the same byte layout. \<^verbatim>\<open>serialize\<close> tests its
  result for an error; the spec knows no error of the encoder but a failing stream, so
  the result is always a value.
\<close>

definition serializeTaprootBip32Derivation :: "TaprootBip32Derivation \<Rightarrow> error + byte list" where
  "serializeTaprootBip32Derivation d =
     Inr (WriteVarInt (length (LeafHashes d)) @ concat (LeafHashes d)
          @ SerializeBIP32Derivation (TapMasterKeyFingerprint d) (TapBip32Path d))"

section \<open>Canonical ordering\<close>

text \<open>
  Modelled from the spec: the \<^verbatim>\<open>Less\<close> of \<^verbatim>\<open>Bip32Sorter\<close>: BIP32 derivations are
  ordered by raw public-key bytes, lexicographic. The order \<open><\<close> on byte lists is the
  lexicographic one of unsigned bytes, a proper prefix first.
\<close>

definition Bip32Sorter_Less :: "Bip32Derivation \<Rightarrow> Bip32Derivation \<Rightarrow> bool" where
  "Bip32Sorter_Less a b \<longleftrightarrow> PubKey a < PubKey b"

text \<open>
  Modelled from the spec: \<^verbatim>\<open>SortBefore\<close>, the ordering rule of the Taproot derivations:
  x-only key bytes, lexicographic.
\<close>

definition SortBefore :: "TaprootBip32Derivation \<Rightarrow> TaprootBip32Derivation \<Rightarrow> bool" where
  "SortBefore a b \<longleftrightarrow> XOnlyPubKey a < XOnlyPubKey b"

text \<open>
  \<^verbatim>\<open>sort.Sort\<close> and \<^verbatim>\<open>sort.Slice\<close> of Go's library sort a slice in place by a
  less-function. The model is insertion sort by that function; the sorted list replaces
  the field of the record, as the permuted backing array does in Go.
\<close>

fun insert_by :: "('a \<Rightarrow> 'a \<Rightarrow> bool) \<Rightarrow> 'a \<Rightarrow> 'a list \<Rightarrow> 'a list" where
  "insert_by lt x [] = [x]"
| "insert_by lt x (y # ys) = (if lt y x then y # insert_by lt x ys else x # y # ys)"

definition sort_by :: "('a \<Rightarrow> 'a \<Rightarrow> bool) \<Rightarrow> 'a list \<Rightarrow> 'a list" where
  "sort_by lt xs = foldr (insert_by lt) xs []"

section \<open>\<^verbatim>\<open>deserialize\<close>\<close>

text \<open>
  The body of the \<^verbatim>\<open>switch OutputType(keyint)\<close> for one record of the stream. An
  error leaves the record as it is; otherwise the record with the field stored is
  returned. The cases are tried in the order of the source.
\<close>

definition deserialize_field ::
  "params \<Rightarrow> int \<Rightarrow> byte list option \<Rightarrow> byte list \<Rightarrow> POutput \<Rightarrow> error + POutput" where
  "deserialize_field p keyint keydata val po =
     (if keyint = uint (RedeemScriptOutputType p) then
        if RedeemScript po \<noteq> None then Inl ErrDuplicateKey
        else if keydata \<noteq> None then Inl ErrInvalidKeydata
        else Inr (po\<lparr>RedeemScript := Some val\<rparr>)
      else if keyint = uint (WitnessScriptOutputType p) then
        if WitnessScript po \<noteq> None then Inl ErrDuplicateKey
        else if keydata \<noteq> None then Inl ErrInvalidKeydata
        else Inr (po\<lparr>WitnessScript := Some val\<rparr>)
      else if keyint = uint (Bip32DerivationOutputType p) then
        if \<not> validatePubkey (bytes_of keydata) then Inl ErrInvalidKeydata
        else
          (case readBip32Derivation val of
             Inl err \<Rightarrow> Inl err
           | Inr (master, derivationPath) \<Rightarrow>
               if list_ex (\<lambda>x. PubKey x = bytes_of keydata) (Bip32Derivation po)
               then Inl ErrDuplicateKey
               else Inr (po\<lparr>Bip32Derivation := Bip32Derivation po @
                      [\<lparr>PubKey = bytes_of keydata, MasterKeyFingerprint = master,
                        Bip32Path = derivationPath\<rparr>]\<rparr>))
      else if keyint = uint (TaprootInternalKeyOutputType p) then
        if TaprootInternalKey po \<noteq> None then Inl ErrDuplicateKey
        else if keydata \<noteq> None then Inl ErrInvalidKeydata
        else if \<not> validateXOnlyPubkey val then Inl ErrInvalidKeydata
        else Inr (po\<lparr>TaprootInternalKey := Some val\<rparr>)
      else if keyint = uint (TaprootTapTreeType p) then
        if TaprootTapTree po \<noteq> None then Inl ErrDuplicateKey
        else if keydata \<noteq> None then Inl ErrInvalidKeydata
        else Inr (po\<lparr>TaprootTapTree := Some val\<rparr>)
      else if keyint = uint (TaprootBip32DerivationOutputType p) then
        if \<not> validateXOnlyPubkey (bytes_of keydata) then Inl ErrInvalidKeydata
        else
          (case readTaprootBip32Derivation (bytes_of keydata) val of
             Inl err \<Rightarrow> Inl err
           | Inr taprootDerivation \<Rightarrow>
               if list_ex (\<lambda>x. XOnlyPubKey x = bytes_of keydata) (TaprootBip32Derivation po)
               then Inl ErrDuplicateKey
               else Inr (po\<lparr>TaprootBip32Derivation :=
                      TaprootBip32Derivation po @ [taprootDerivation]\<rparr>))
      else Inl ErrInvalidPsbtFormat)"

text \<open>
  The loop of \<^verbatim>\<open>deserialize\<close>. The method updates the record it is called on, so the
  result is the error or the stream left behind the separator, and the record as the
  call leaves it, on success and on failure alike.
\<close>

function deserialize :: "params \<Rightarrow> byte list \<Rightarrow> POutput \<Rightarrow> (error + byte list) \<times> POutput" where
  "deserialize p r po =
     (case getKey p r of
        Inl err \<Rightarrow> (Inl err, po)
      | Inr (keyint, keydata, r1) \<Rightarrow>
          if keyint = - 1 then (Inr r1, po)
          else
            (case ReadVarBytes r1 (MaxPsbtValueLength p) of
               Inl err \<Rightarrow> (Inl err, po)
             | Inr (val, r2) \<Rightarrow>
                 (case deserialize_field p keyint keydata val po of
                    Inl err \<Rightarrow> (Inl err, po)
                  | Inr po' \<Rightarrow> deserialize p r2 po')))"
  by pat_completeness auto
termination
proof (relation "measure (\<lambda>(p, r, po). length r)")
  show "wf (measure (\<lambda>(p, r, po). length r))"
    by simp
next
  fix p :: params and r r1 r2 :: "byte list" and po po' :: POutput
    and x keyint and y keydata and val and z
  assume key: "getKey p r = Inr x" "(keyint, y) = x" "(keydata, r1) = y"
    and rd: "ReadVarBytes r1 (MaxPsbtValueLength p) = Inr z" "(val, r2) = z"
  have len: "length s' \<le> length s" if "ReadVarInt s = Inr (n, s')" for s s' n
    using that by (auto simp: ReadVarInt_def Let_def split: list.splits if_splits)
  have "length r1 < length r"
    using key len
    by (fastforce simp: getKey_def split: list.splits if_splits sum.splits prod.splits)
  moreover have "length r2 \<le> length r1"
    using rd len
    by (fastforce simp: ReadVarBytes_def split: if_splits sum.splits prod.splits)
  ultimately show "((p, r2, po'), (p, r, po)) \<in> measure (\<lambda>(p, r, po). length r)"
    by simp
qed

declare deserialize.simps [simp del]

section \<open>\<^verbatim>\<open>serialize\<close>\<close>

text \<open>The two \<^verbatim>\<open>for ... range\<close> loops of \<^verbatim>\<open>serialize\<close>, each stopping at the first error.\<close>

fun serialize_Bip32Derivations ::
  "params \<Rightarrow> writer \<Rightarrow> Bip32Derivation list \<Rightarrow> error + writer" where
  "serialize_Bip32Derivations p w [] = Inr w"
| "serialize_Bip32Derivations p w (kd # kds) =
     (case serializeKVPairWithType w (Bip32DerivationOutputType p) (Some (PubKey kd))
             (SerializeBIP32Derivation (MasterKeyFingerprint kd) (Bip32Path kd)) of
        Inl err \<Rightarrow> Inl err
      | Inr w' \<Rightarrow> serialize_Bip32Derivations p w' kds)"

fun serialize_TaprootBip32Derivations ::
  "params \<Rightarrow> writer \<Rightarrow> TaprootBip32Derivation list \<Rightarrow> error + writer" where
  "serialize_TaprootBip32Derivations p w [] = Inr w"
| "serialize_TaprootBip32Derivations p w (derivation # ds) =
     (case serializeTaprootBip32Derivation derivation of
        Inl err \<Rightarrow> Inl err
      | Inr val \<Rightarrow>
          (case serializeKVPairWithType w (TaprootBip32DerivationOutputType p)
                  (Some (XOnlyPubKey derivation)) val of
             Inl err \<Rightarrow> Inl err
           | Inr w' \<Rightarrow> serialize_TaprootBip32Derivations p w' ds))"

text \<open>An optional field: written when it is not \<^verbatim>\<open>nil\<close>, with no key data.\<close>

definition serialize_optional :: "writer \<Rightarrow> byte \<Rightarrow> byte list option \<Rightarrow> error + writer" where
  "serialize_optional w kt field =
     (case field of
        None \<Rightarrow> Inr w
      | Some val \<Rightarrow> serializeKVPairWithType w kt None val)"

text \<open>
  \<^verbatim>\<open>serialize\<close> returns the error or the writer after the last write, and the record as
  the call leaves it: the two sorts reorder the derivation slices of the record itself.
\<close>

definition serialize :: "params \<Rightarrow> writer \<Rightarrow> POutput \<Rightarrow> (error + writer) \<times> POutput" where
  "serialize p w po =
     (case serialize_optional w (RedeemScriptOutputType p) (RedeemScript po) of
        Inl err \<Rightarrow> (Inl err, po)
      | Inr w1 \<Rightarrow>
     (case serialize_optional w1 (WitnessScriptOutputType p) (WitnessScript po) of
        Inl err \<Rightarrow> (Inl err, po)
      | Inr w2 \<Rightarrow>
     (let po1 = po\<lparr>Bip32Derivation := sort_by Bip32Sorter_Less (Bip32Derivation po)\<rparr> in
      case serialize_Bip32Derivations p w2 (Bip32Derivation po1) of
        Inl err \<Rightarrow> (Inl err, po1)
      | Inr w3 \<Rightarrow>
     (case serialize_optional w3 (TaprootInternalKeyOutputType p) (TaprootInternalKey po1) of
        Inl err \<Rightarrow> (Inl err, po1)
      | Inr w4 \<Rightarrow>
     (case serialize_optional w4 (TaprootTapTreeType p) (TaprootTapTree po1) of
        Inl err \<Rightarrow> (Inl err, po1)
      | Inr w5 \<Rightarrow>
     (let po2 = po1\<lparr>TaprootBip32Derivation :=
                    sort_by SortBefore (TaprootBip32Derivation po1)\<rparr> in
      case serialize_TaprootBip32Derivations p w5 (TaprootBip32Derivation po2) of
        Inl err \<Rightarrow> (Inl err, po2)
      | Inr w6 \<Rightarrow> (Inr w6, po2)))))))"

section \<open>Notions used to state the properties\<close>

text \<open>
  The type codes are the distinct constants of one Go \<^verbatim>\<open>switch\<close>, and the separator is a
  reserved byte distinct from all of them.
\<close>

definition distinct_codes :: "params \<Rightarrow> bool" where
  "distinct_codes p \<longleftrightarrow>
     distinct [RedeemScriptOutputType p, WitnessScriptOutputType p,
               Bip32DerivationOutputType p, TaprootInternalKeyOutputType p,
               TaprootTapTreeType p, TaprootBip32DerivationOutputType p, Separator p]"

text \<open>
  \<open>read_fields p n r po\<close>: the first \<open>n\<close> iterations of the loop of \<^verbatim>\<open>deserialize\<close>
  on the stream \<open>r\<close> each read a record and stored it without error; the result is the
  stream and the record before iteration \<open>n + 1\<close>.
\<close>

fun read_fields :: "params \<Rightarrow> nat \<Rightarrow> byte list \<Rightarrow> POutput \<Rightarrow> (byte list \<times> POutput) option" where
  "read_fields p 0 r po = Some (r, po)"
| "read_fields p (Suc n) r po =
     (case getKey p r of
        Inl err \<Rightarrow> None
      | Inr (keyint, keydata, r1) \<Rightarrow>
          if keyint = - 1 then None
          else
            (case ReadVarBytes r1 (MaxPsbtValueLength p) of
               Inl err \<Rightarrow> None
             | Inr (val, r2) \<Rightarrow>
                 (case deserialize_field p keyint keydata val po of
                    Inl err \<Rightarrow> None
                  | Inr po' \<Rightarrow> read_fields p n r2 po')))"

text \<open>The bytes of the records of a POutput, in the order of \<^verbatim>\<open>serialize\<close>.\<close>

definition optional_record :: "byte \<Rightarrow> byte list option \<Rightarrow> byte list" where
  "optional_record kt field = (case field of None \<Rightarrow> [] | Some val \<Rightarrow> kvPair kt None val)"

definition Bip32_record :: "params \<Rightarrow> Bip32Derivation \<Rightarrow> byte list" where
  "Bip32_record p kd =
     kvPair (Bip32DerivationOutputType p) (Some (PubKey kd))
       (SerializeBIP32Derivation (MasterKeyFingerprint kd) (Bip32Path kd))"

definition Taproot_value :: "TaprootBip32Derivation \<Rightarrow> byte list" where
  "Taproot_value d =
     WriteVarInt (length (LeafHashes d)) @ concat (LeafHashes d)
     @ SerializeBIP32Derivation (TapMasterKeyFingerprint d) (TapBip32Path d)"

definition Taproot_record :: "params \<Rightarrow> TaprootBip32Derivation \<Rightarrow> byte list" where
  "Taproot_record p d =
     kvPair (TaprootBip32DerivationOutputType p) (Some (XOnlyPubKey d)) (Taproot_value d)"

definition records :: "params \<Rightarrow> POutput \<Rightarrow> byte list" where
  "records p po =
     optional_record (RedeemScriptOutputType p) (RedeemScript po)
     @ optional_record (WitnessScriptOutputType p) (WitnessScript po)
     @ concat (map (Bip32_record p) (Bip32Derivation po))
     @ optional_record (TaprootInternalKeyOutputType p) (TaprootInternalKey po)
     @ optional_record (TaprootTapTreeType p) (TaprootTapTree po)
     @ concat (map (Taproot_record p) (TaprootBip32Derivation po))"

text \<open>The record with both derivation lists in canonical order.\<close>

definition canonical :: "POutput \<Rightarrow> POutput" where
  "canonical po =
     po\<lparr>Bip32Derivation := sort_by Bip32Sorter_Less (Bip32Derivation po),
        TaprootBip32Derivation := sort_by SortBefore (TaprootBip32Derivation po)\<rparr>"

text \<open>
  A validly constructed record, as the data model of the spec has it: every value fits
  the bound on value lengths, the public keys are structurally valid and unique within
  their list, the Taproot internal key is an x-only key, every leaf hash has 32 bytes.
\<close>

definition valid_optional :: "params \<Rightarrow> byte list option \<Rightarrow> bool" where
  "valid_optional p field =
     (case field of None \<Rightarrow> True | Some val \<Rightarrow> length val \<le> MaxPsbtValueLength p)"

definition valid_Bip32 :: "params \<Rightarrow> Bip32Derivation \<Rightarrow> bool" where
  "valid_Bip32 p kd \<longleftrightarrow>
     validatePubkey (PubKey kd) \<and> 4 + 4 * length (Bip32Path kd) \<le> MaxPsbtValueLength p"

definition valid_Taproot :: "params \<Rightarrow> TaprootBip32Derivation \<Rightarrow> bool" where
  "valid_Taproot p d \<longleftrightarrow>
     validateXOnlyPubkey (XOnlyPubKey d) \<and> list_all (\<lambda>h. length h = 32) (LeafHashes d)
     \<and> length (Taproot_value d) \<le> MaxPsbtValueLength p"

definition valid_POutput :: "params \<Rightarrow> POutput \<Rightarrow> bool" where
  "valid_POutput p po \<longleftrightarrow>
     valid_optional p (RedeemScript po) \<and> valid_optional p (WitnessScript po)
     \<and> list_all (valid_Bip32 p) (Bip32Derivation po)
     \<and> distinct (map PubKey (Bip32Derivation po))
     \<and> valid_optional p (TaprootInternalKey po)
     \<and> (case TaprootInternalKey po of None \<Rightarrow> True | Some k \<Rightarrow> validateXOnlyPubkey k)
     \<and> valid_optional p (TaprootTapTree po)
     \<and> list_all (valid_Taproot p) (TaprootBip32Derivation po)
     \<and> distinct (map XOnlyPubKey (TaprootBip32Derivation po))"

text \<open>
  \<open>field_at p n r po\<close>: the record number \<open>n\<close> of the stream (counting from 0), when the
  loop of \<^verbatim>\<open>deserialize\<close> gets to it: the records before it were stored without error,
  and its key and value can be read. The result is its key type, its key data, its value
  and the POutput as the records before it left it.
\<close>

definition field_at ::
  "params \<Rightarrow> nat \<Rightarrow> byte list \<Rightarrow> POutput
     \<Rightarrow> (int \<times> byte list option \<times> byte list \<times> POutput) option" where
  "field_at p n r po =
     (case read_fields p n r po of
        None \<Rightarrow> None
      | Some (r', po') \<Rightarrow>
          (case getKey p r' of
             Inl err \<Rightarrow> None
           | Inr (keyint, keydata, r1) \<Rightarrow>
               if keyint = - 1 then None
               else
                 (case ReadVarBytes r1 (MaxPsbtValueLength p) of
                    Inl err \<Rightarrow> None
                  | Inr (val, r2) \<Rightarrow> Some (keyint, keydata, val, po'))))"

text \<open>The six type codes that \<^verbatim>\<open>deserialize\<close> recognizes.\<close>

definition output_types :: "params \<Rightarrow> byte list" where
  "output_types p =
     [RedeemScriptOutputType p, WitnessScriptOutputType p, Bip32DerivationOutputType p,
      TaprootInternalKeyOutputType p, TaprootTapTreeType p,
      TaprootBip32DerivationOutputType p]"

text \<open>
  \<open>extends po po'\<close>: everything stored in \<open>po\<close> is still stored in \<open>po'\<close>: a field
  that is set has kept its value, and each derivation list starts with the entries it
  had.
\<close>

definition keeps :: "byte list option \<Rightarrow> byte list option \<Rightarrow> bool" where
  "keeps old new = (case old of None \<Rightarrow> True | Some val \<Rightarrow> new = Some val)"

definition extends :: "POutput \<Rightarrow> POutput \<Rightarrow> bool" where
  "extends po po' \<longleftrightarrow>
     keeps (RedeemScript po) (RedeemScript po')
     \<and> keeps (WitnessScript po) (WitnessScript po')
     \<and> take (length (Bip32Derivation po)) (Bip32Derivation po') = Bip32Derivation po
     \<and> keeps (TaprootInternalKey po) (TaprootInternalKey po')
     \<and> keeps (TaprootTapTree po) (TaprootTapTree po')
     \<and> take (length (TaprootBip32Derivation po)) (TaprootBip32Derivation po')
         = TaprootBip32Derivation po"

text \<open>
  Concrete values for the examples. The code \<open>0x01\<close> of the redeem script and the
  separator \<open>0xFF\<close> are those of the end-to-end example of the spec; the other type codes
  are distinct bytes chosen here.
\<close>

definition example_params :: params where
  "example_params =
     \<lparr>RedeemScriptOutputType = 1, WitnessScriptOutputType = 2,
      Bip32DerivationOutputType = 3, TaprootInternalKeyOutputType = 4,
      TaprootTapTreeType = 5, TaprootBip32DerivationOutputType = 6,
      Separator = 0xFF, MaxPsbtValueLength = 4000000\<rparr>"

definition buffer :: writer where
  "buffer = \<lparr>written = [], room = None\<rparr>"

definition empty_POutput :: POutput where
  "empty_POutput = NewPsbtOutput None None []"

definition key_02AA :: "byte list" where
  "key_02AA = 0x02 # replicate 32 0xAA"

definition key_03BB :: "byte list" where
  "key_03BB = 0x03 # replicate 32 0xBB"

definition entry_02AA :: Bip32Derivation where
  "entry_02AA = \<lparr>PubKey = key_02AA, MasterKeyFingerprint = 0x01020304, Bip32Path = [44, 0]\<rparr>"

definition entry_03BB :: Bip32Derivation where
  "entry_03BB = \<lparr>PubKey = key_03BB, MasterKeyFingerprint = 0x0A0B0C0D, Bip32Path = []\<rparr>"

definition entry_tap :: TaprootBip32Derivation where
  "entry_tap =
     \<lparr>XOnlyPubKey = replicate 32 0x22, LeafHashes = [replicate 32 0x33],
      TapMasterKeyFingerprint = 0x01020304, TapBip32Path = [86]\<rparr>"

definition entry_tap_low :: TaprootBip32Derivation where
  "entry_tap_low =
     \<lparr>XOnlyPubKey = replicate 32 0x21, LeafHashes = [],
      TapMasterKeyFingerprint = 0x0A0B0C0D, TapBip32Path = []\<rparr>"

definition full_POutput :: POutput where
  "full_POutput =
     \<lparr>RedeemScript = Some [0x51], WitnessScript = Some [0x52, 0x53],
      Bip32Derivation = [entry_03BB, entry_02AA],
      TaprootInternalKey = Some (replicate 32 0x11), TaprootTapTree = Some [0x54],
      TaprootBip32Derivation = [entry_tap, entry_tap_low]\<rparr>"

definition example_POutput :: POutput where
  "example_POutput =
     \<lparr>RedeemScript = Some [0x51], WitnessScript = None,
      Bip32Derivation = [entry_03BB, entry_02AA],
      TaprootInternalKey = Some (replicate 32 0x11), TaprootTapTree = None,
      TaprootBip32Derivation = [entry_tap]\<rparr>"

section \<open>Basic facts about the loop of \<^verbatim>\<open>deserialize\<close>\<close>

lemma to_le_numeral:
  "to_le (numeral k) n = of_nat (n mod 256) # to_le (pred_numeral k) (n div 256)"
  by (simp only: numeral_eq_Suc [of k] to_le.simps)

lemma uint_byte_not_separator [simp]: "uint (b :: byte) \<noteq> - 1"
  using uint_ge_0 [of b] by linarith

lemma deserialize_getKey_error:
  "getKey p r = Inl err \<Longrightarrow> deserialize p r po = (Inl err, po)"
  by (simp add: deserialize.simps)

lemma deserialize_separator:
  "getKey p r = Inr (- 1, keydata, r1) \<Longrightarrow> deserialize p r po = (Inr r1, po)"
  by (simp add: deserialize.simps)

lemma deserialize_value_error:
  "getKey p r = Inr (keyint, keydata, r1) \<Longrightarrow> keyint \<noteq> - 1 \<Longrightarrow>
   ReadVarBytes r1 (MaxPsbtValueLength p) = Inl err \<Longrightarrow> deserialize p r po = (Inl err, po)"
  by (simp add: deserialize.simps)

lemma deserialize_record:
  "getKey p r = Inr (keyint, keydata, r1) \<Longrightarrow> keyint \<noteq> - 1 \<Longrightarrow>
   ReadVarBytes r1 (MaxPsbtValueLength p) = Inr (val, r2) \<Longrightarrow>
   deserialize p r po =
     (case deserialize_field p keyint keydata val po of
        Inl err \<Rightarrow> (Inl err, po)
      | Inr po' \<Rightarrow> deserialize p r2 po')"
  by (simp add: deserialize.simps)

lemma read_fields_deserialize:
  "read_fields p n r po = Some (r', po') \<Longrightarrow> deserialize p r po = deserialize p r' po'"
proof (induction n arbitrary: r po)
  case 0
  then show ?case by simp
next
  case (Suc n)
  from Suc.prems obtain keyint keydata r1 val r2 po1 where
    k: "getKey p r = Inr (keyint, keydata, r1)" "keyint \<noteq> - 1"
    and v: "ReadVarBytes r1 (MaxPsbtValueLength p) = Inr (val, r2)"
    and f: "deserialize_field p keyint keydata val po = Inr po1"
    and rest: "read_fields p n r2 po1 = Some (r', po')"
    by (auto split: sum.splits prod.splits if_splits)
  have "deserialize p r po = deserialize p r2 po1"
    using deserialize_record [OF k v] f by simp
  with Suc.IH [OF rest] show ?case by simp
qed

lemma extends_refl: "extends po po"
  by (simp add: extends_def keeps_def split: option.splits)

lemma keeps_trans: "keeps a b \<Longrightarrow> keeps b c \<Longrightarrow> keeps a c"
  by (auto simp: keeps_def split: option.splits)

lemma take_prefix_trans:
  "take (length xs) ys = xs \<Longrightarrow> take (length ys) zs = ys \<Longrightarrow> take (length xs) zs = xs"
  by (metis append_eq_conv_conj append_take_drop_id append.assoc)

lemma extends_trans: "extends a b \<Longrightarrow> extends b c \<Longrightarrow> extends a c"
  unfolding extends_def
  by (auto intro: keeps_trans take_prefix_trans)

lemma deserialize_field_cases:
  assumes "deserialize_field p keyint keydata val po = Inr po'"
  shows "(RedeemScript po = None \<and> po' = po\<lparr>RedeemScript := Some val\<rparr>)
       \<or> (WitnessScript po = None \<and> po' = po\<lparr>WitnessScript := Some val\<rparr>)
       \<or> (\<exists>d. po' = po\<lparr>Bip32Derivation := Bip32Derivation po @ [d]\<rparr>)
       \<or> (TaprootInternalKey po = None \<and> po' = po\<lparr>TaprootInternalKey := Some val\<rparr>)
       \<or> (TaprootTapTree po = None \<and> po' = po\<lparr>TaprootTapTree := Some val\<rparr>)
       \<or> (\<exists>d. po' = po\<lparr>TaprootBip32Derivation := TaprootBip32Derivation po @ [d]\<rparr>)"
  using assms unfolding deserialize_field_def
  by (simp split: if_splits sum.splits prod.splits) blast+

lemma deserialize_field_extends:
  assumes "deserialize_field p keyint keydata val po = Inr po'"
  shows "extends po po'"
  using deserialize_field_cases [OF assms]
  by (elim disjE exE conjE) (simp_all add: extends_def keeps_def split: option.splits)

lemma deserialize_extends: "extends po (snd (deserialize p r po))"
proof (induction p r po rule: deserialize.induct)
  case (1 p r po)
  show ?case
  proof (cases "getKey p r")
    case (Inl err)
    then show ?thesis by (simp add: deserialize_getKey_error extends_refl)
  next
    case (Inr x)
    then obtain keyint keydata r1 where k: "getKey p r = Inr (keyint, keydata, r1)"
      by (cases x) auto
    show ?thesis
    proof (cases "keyint = - 1")
      case True
      with k show ?thesis by (simp add: deserialize_separator extends_refl)
    next
      case ns: False
      show ?thesis
      proof (cases "ReadVarBytes r1 (MaxPsbtValueLength p)")
        case (Inl err)
        with k ns show ?thesis by (simp add: deserialize_value_error extends_refl)
      next
        case (Inr y)
        then obtain val r2 where v: "ReadVarBytes r1 (MaxPsbtValueLength p) = Inr (val, r2)"
          by (cases y) auto
        show ?thesis
        proof (cases "deserialize_field p keyint keydata val po")
          case (Inl err)
          with k ns v show ?thesis by (simp add: deserialize_record extends_refl)
        next
          case (Inr po1)
          have "extends po1 (snd (deserialize p r2 po1))"
            using "1.IH" [OF k refl refl ns v refl Inr] .
          moreover have "extends po po1"
            using Inr by (rule deserialize_field_extends)
          ultimately have "extends po (snd (deserialize p r2 po1))"
            by (rule extends_trans [rotated])
          moreover have "deserialize p r po = deserialize p r2 po1"
            using deserialize_record [OF k ns v, of po] Inr by simp
          ultimately show ?thesis
            by simp
        qed
      qed
    qed
  qed
qed

section \<open>Evaluation on concrete streams\<close>

lemmas stream_defs = getKey_def ReadVarBytes_def ReadVarInt_def

lemmas example_defs = example_params_def empty_POutput_def NewPsbtOutput_def

lemmas field_defs = field_at_def deserialize_field_def

lemmas serialize_defs = serialize_def serialize_optional_def serializeKVPairWithType_def
  kvPair_def Write_def WriteVarInt_def bytes_of_def sort_by_def Bip32Sorter_Less_def
  SortBefore_def SerializeBIP32Derivation_def put_uint32_def buffer_def to_le_numeral

lemmas entry_defs = entry_02AA_def entry_03BB_def key_02AA_def key_03BB_def

text \<open>
  The end-to-end example of the spec: the five bytes decode to a record with the redeem
  script \<open>0x51\<close> and no other field.
\<close>

lemma spec_example_decodes:
  "deserialize example_params [0x01, 0x00, 0x01, 0x51, 0xFF] empty_POutput
     = (Inr [], NewPsbtOutput (Some [0x51]) None [])"
  by (simp add: deserialize.simps field_defs stream_defs example_defs)

section \<open>The cases of the switch, and records of the stream\<close>

lemma distinct_codes_uint:
  assumes "distinct_codes p"
  shows "uint (WitnessScriptOutputType p) \<noteq> uint (RedeemScriptOutputType p)"
    and "uint (Bip32DerivationOutputType p) \<noteq> uint (RedeemScriptOutputType p)"
    and "uint (Bip32DerivationOutputType p) \<noteq> uint (WitnessScriptOutputType p)"
    and "uint (TaprootInternalKeyOutputType p) \<noteq> uint (RedeemScriptOutputType p)"
    and "uint (TaprootInternalKeyOutputType p) \<noteq> uint (WitnessScriptOutputType p)"
    and "uint (TaprootInternalKeyOutputType p) \<noteq> uint (Bip32DerivationOutputType p)"
    and "uint (TaprootTapTreeType p) \<noteq> uint (RedeemScriptOutputType p)"
    and "uint (TaprootTapTreeType p) \<noteq> uint (WitnessScriptOutputType p)"
    and "uint (TaprootTapTreeType p) \<noteq> uint (Bip32DerivationOutputType p)"
    and "uint (TaprootTapTreeType p) \<noteq> uint (TaprootInternalKeyOutputType p)"
    and "uint (TaprootBip32DerivationOutputType p) \<noteq> uint (RedeemScriptOutputType p)"
    and "uint (TaprootBip32DerivationOutputType p) \<noteq> uint (WitnessScriptOutputType p)"
    and "uint (TaprootBip32DerivationOutputType p) \<noteq> uint (Bip32DerivationOutputType p)"
    and "uint (TaprootBip32DerivationOutputType p) \<noteq> uint (TaprootInternalKeyOutputType p)"
    and "uint (TaprootBip32DerivationOutputType p) \<noteq> uint (TaprootTapTreeType p)"
  using assms by (auto simp: distinct_codes_def word_uint_eq_iff [symmetric])

lemma deserialize_field_RedeemScript:
  "deserialize_field p (uint (RedeemScriptOutputType p)) keydata val po =
     (if RedeemScript po \<noteq> None then Inl ErrDuplicateKey
      else if keydata \<noteq> None then Inl ErrInvalidKeydata
      else Inr (po\<lparr>RedeemScript := Some val\<rparr>))"
  by (simp add: deserialize_field_def)

lemma deserialize_field_WitnessScript:
  "distinct_codes p \<Longrightarrow>
   deserialize_field p (uint (WitnessScriptOutputType p)) keydata val po =
     (if WitnessScript po \<noteq> None then Inl ErrDuplicateKey
      else if keydata \<noteq> None then Inl ErrInvalidKeydata
      else Inr (po\<lparr>WitnessScript := Some val\<rparr>))"
  by (simp add: deserialize_field_def distinct_codes_uint)

lemma deserialize_field_Bip32Derivation:
  "distinct_codes p \<Longrightarrow>
   deserialize_field p (uint (Bip32DerivationOutputType p)) keydata val po =
     (if \<not> validatePubkey (bytes_of keydata) then Inl ErrInvalidKeydata
      else
        (case readBip32Derivation val of
           Inl err \<Rightarrow> Inl err
         | Inr (master, derivationPath) \<Rightarrow>
             if list_ex (\<lambda>x. PubKey x = bytes_of keydata) (Bip32Derivation po)
             then Inl ErrDuplicateKey
             else Inr (po\<lparr>Bip32Derivation := Bip32Derivation po @
                    [\<lparr>PubKey = bytes_of keydata, MasterKeyFingerprint = master,
                      Bip32Path = derivationPath\<rparr>]\<rparr>)))"
  by (simp add: deserialize_field_def distinct_codes_uint)

lemma deserialize_field_TaprootInternalKey:
  "distinct_codes p \<Longrightarrow>
   deserialize_field p (uint (TaprootInternalKeyOutputType p)) keydata val po =
     (if TaprootInternalKey po \<noteq> None then Inl ErrDuplicateKey
      else if keydata \<noteq> None then Inl ErrInvalidKeydata
      else if \<not> validateXOnlyPubkey val then Inl ErrInvalidKeydata
      else Inr (po\<lparr>TaprootInternalKey := Some val\<rparr>))"
  by (simp add: deserialize_field_def distinct_codes_uint)

lemma deserialize_field_TaprootTapTree:
  "distinct_codes p \<Longrightarrow>
   deserialize_field p (uint (TaprootTapTreeType p)) keydata val po =
     (if TaprootTapTree po \<noteq> None then Inl ErrDuplicateKey
      else if keydata \<noteq> None then Inl ErrInvalidKeydata
      else Inr (po\<lparr>TaprootTapTree := Some val\<rparr>))"
  by (simp add: deserialize_field_def distinct_codes_uint)

lemma deserialize_field_TaprootBip32Derivation:
  "distinct_codes p \<Longrightarrow>
   deserialize_field p (uint (TaprootBip32DerivationOutputType p)) keydata val po =
     (if \<not> validateXOnlyPubkey (bytes_of keydata) then Inl ErrInvalidKeydata
      else
        (case readTaprootBip32Derivation (bytes_of keydata) val of
           Inl err \<Rightarrow> Inl err
         | Inr taprootDerivation \<Rightarrow>
             if list_ex (\<lambda>x. XOnlyPubKey x = bytes_of keydata) (TaprootBip32Derivation po)
             then Inl ErrDuplicateKey
             else Inr (po\<lparr>TaprootBip32Derivation :=
                    TaprootBip32Derivation po @ [taprootDerivation]\<rparr>)))"
  by (simp add: deserialize_field_def distinct_codes_uint)

lemma read_fields_add:
  "read_fields p (a + b) r po =
     (case read_fields p a r po of None \<Rightarrow> None | Some (r', po') \<Rightarrow> read_fields p b r' po')"
  by (induction a arbitrary: r po) (simp_all split: sum.splits prod.splits)

lemma read_fields_extends:
  "read_fields p n r po = Some (r', po') \<Longrightarrow> extends po po'"
proof (induction n arbitrary: r po)
  case 0
  then show ?case by (simp add: extends_refl)
next
  case (Suc n)
  from Suc.prems obtain keyint keydata val r2 po1 where
    f: "deserialize_field p keyint keydata val po = Inr po1"
    and rest: "read_fields p n r2 po1 = Some (r', po')"
    by (auto split: sum.splits prod.splits if_splits)
  from deserialize_field_extends [OF f] Suc.IH [OF rest] show ?case
    by (rule extends_trans)
qed

lemma field_at_error:
  assumes "field_at p n r po = Some (keyint, keydata, val, po')"
    and "deserialize_field p keyint keydata val po' = Inl err"
  shows "deserialize p r po = (Inl err, po')"
proof -
  from assms(1) obtain r' r1 r2 where
    f: "read_fields p n r po = Some (r', po')"
    and k: "getKey p r' = Inr (keyint, keydata, r1)" "keyint \<noteq> - 1"
    and v: "ReadVarBytes r1 (MaxPsbtValueLength p) = Inr (val, r2)"
    by (auto simp: field_at_def split: option.splits sum.splits prod.splits if_splits)
  have "deserialize p r' po' = (Inl err, po')"
    using deserialize_record [OF k v, of po'] assms(2) by simp
  with read_fields_deserialize [OF f] show ?thesis by simp
qed

lemma field_at_stored:
  assumes "field_at p i r po = Some (keyint, keydata, val, pa)"
    and "field_at p j r po = Some (keyint', keydata', val', pb)"
    and "i < j"
  shows "\<exists>pa'. deserialize_field p keyint keydata val pa = Inr pa' \<and> extends pa' pb"
proof -
  from assms(1) obtain ra r1 r2 where
    fa: "read_fields p i r po = Some (ra, pa)"
    and k: "getKey p ra = Inr (keyint, keydata, r1)" "keyint \<noteq> - 1"
    and v: "ReadVarBytes r1 (MaxPsbtValueLength p) = Inr (val, r2)"
    by (auto simp: field_at_def split: option.splits sum.splits prod.splits if_splits)
  from assms(2) obtain rb where fb: "read_fields p j r po = Some (rb, pb)"
    by (cases "read_fields p j r po")
       (auto simp: field_at_def split: sum.splits prod.splits if_splits)
  from less_imp_Suc_add [OF assms(3)] obtain d where "j = Suc (i + d)" ..
  then have j: "j = i + Suc d"
    by simp
  have "read_fields p (Suc d) ra pa = Some (rb, pb)"
    using fb fa unfolding j read_fields_add by simp
  then obtain pa' where
    f: "deserialize_field p keyint keydata val pa = Inr pa'"
    and rest: "read_fields p d r2 pa' = Some (rb, pb)"
    using k v by (auto split: sum.splits)
  from f read_fields_extends [OF rest] show ?thesis by blast
qed

section \<open>What \<^verbatim>\<open>serialize\<close> writes and what it leaves\<close>

lemma insert_by_Bip32: "insert_by Bip32Sorter_Less x ys = insort_key PubKey x ys"
  by (induction ys) (auto simp: Bip32Sorter_Less_def)

lemma sort_by_Bip32: "sort_by Bip32Sorter_Less xs = sort_key PubKey xs"
  by (induction xs) (simp_all add: sort_by_def insert_by_Bip32)

lemma insert_by_Taproot: "insert_by SortBefore x ys = insort_key XOnlyPubKey x ys"
  by (induction ys) (auto simp: SortBefore_def)

lemma sort_by_Taproot: "sort_by SortBefore xs = sort_key XOnlyPubKey xs"
  by (induction xs) (simp_all add: sort_by_def insert_by_Taproot)

lemma sort_key_idem: "sort_key f (sort_key f xs) = sort_key f xs"
  by (simp add: sort_key_id_if_sorted)

lemma canonical_idem: "canonical (canonical po) = canonical po"
  by (simp add: canonical_def sort_by_Bip32 sort_by_Taproot sort_key_idem)

lemma Write_Nil: "Write w [] = Inr w"
  by (simp add: Write_def split: option.splits)

lemma Write_append:
  "Write w (a @ b) = (case Write w a of Inl err \<Rightarrow> Inl err | Inr w1 \<Rightarrow> Write w1 b)"
  by (auto simp: Write_def split: option.splits)

lemma Write_written: "Write w bs = Inr w' \<Longrightarrow> written w' = written w @ bs"
  by (auto simp: Write_def split: option.splits if_splits)

lemma serialize_optional_Write:
  "serialize_optional w kt field = Write w (optional_record kt field)"
  by (simp add: serialize_optional_def optional_record_def serializeKVPairWithType_def Write_Nil
           split: option.splits)

lemma serialize_Bip32Derivations_Write:
  "serialize_Bip32Derivations p w kds = Write w (concat (map (Bip32_record p) kds))"
proof (induction kds arbitrary: w)
  case Nil
  show ?case by (simp add: Write_Nil)
next
  case (Cons kd kds)
  show ?case
    by (simp add: Cons.IH Write_append serializeKVPairWithType_def Bip32_record_def
          split: sum.splits)
qed

lemma serialize_TaprootBip32Derivations_Write:
  "serialize_TaprootBip32Derivations p w ds = Write w (concat (map (Taproot_record p) ds))"
proof (induction ds arbitrary: w)
  case Nil
  show ?case by (simp add: Write_Nil)
next
  case (Cons d ds)
  show ?case
    by (simp add: Cons.IH Write_append serializeKVPairWithType_def Taproot_record_def
          serializeTaprootBip32Derivation_def Taproot_value_def split: sum.splits)
qed

lemma fst_serialize: "fst (serialize p w po) = Write w (records p (canonical po))"
  unfolding serialize_def records_def canonical_def Let_def
    serialize_optional_Write serialize_Bip32Derivations_Write
    serialize_TaprootBip32Derivations_Write
  by (simp add: Write_append split: sum.splits)

lemma snd_serialize_cases:
  "snd (serialize p w po) = po
   \<or> snd (serialize p w po) = po\<lparr>Bip32Derivation := sort_by Bip32Sorter_Less (Bip32Derivation po)\<rparr>
   \<or> snd (serialize p w po) = canonical po"
  unfolding serialize_def canonical_def Let_def
  by (simp split: sum.splits)

lemma snd_serialize_success:
  "fst (serialize p w po) = Inr w' \<Longrightarrow> snd (serialize p w po) = canonical po"
  unfolding serialize_def canonical_def Let_def
  by (auto split: sum.splits)

lemma canonical_snd_serialize: "canonical (snd (serialize p w po)) = canonical po"
  using snd_serialize_cases [of p w po]
  by (elim disjE) (simp_all add: canonical_idem, simp add: canonical_def sort_by_Bip32 sort_key_idem)

section \<open>Reading back what the codecs write\<close>

lemma length_to_le [simp]: "length (to_le k n) = k"
  by (induction k arbitrary: n) simp_all

lemma unat_byte_of_nat_mod: "unat (of_nat (n mod 256) :: byte) = n mod 256"
  by (simp add: unat_of_nat)

lemma from_le_to_le: "from_le (to_le k n) = n mod 256 ^ k"
proof (induction k arbitrary: n)
  case 0
  show ?case by simp
next
  case (Suc k)
  have "from_le (to_le (Suc k) n) = n mod 256 + 256 * (n div 256 mod 256 ^ k)"
    by (simp add: Suc.IH unat_byte_of_nat_mod)
  also have "\<dots> = n mod (256 * 256 ^ k)"
    by (simp add: mod_mult2_eq)
  finally show ?case by simp
qed

lemma from_le_take_to_le: "from_le (take k (to_le k n @ rest)) = n mod 256 ^ k"
  by (simp add: from_le_to_le)

lemma ReadVarInt_WriteVarInt:
  assumes "n < 2 ^ 64"
  shows "ReadVarInt (WriteVarInt n @ rest) = Inr (n, rest)"
proof -
  have m: "n mod 18446744073709551616 = n"
    using assms by simp
  consider "n < 0xfd" | "0xfd \<le> n" "n \<le> 0xffff" | "0xffff < n" "n \<le> 0xffffffff"
    | "0xffffffff < n"
    by linarith
  then show ?thesis
  proof cases
    case 1
    then have "unat (of_nat n :: byte) = n"
      by (simp add: unat_of_nat)
    then have "(of_nat n :: byte) < 0xfd"
      using 1 by (simp add: word_less_nat_alt)
    then show ?thesis
      using 1 \<open>unat (of_nat n :: byte) = n\<close>
      by (simp add: WriteVarInt_def ReadVarInt_def m)
  next
    case 2
    then have "from_le (take 2 (to_le 2 n @ rest)) = n"
      unfolding from_le_take_to_le by simp
    then show ?thesis
      using 2 by (simp add: WriteVarInt_def ReadVarInt_def m)
  next
    case 3
    then have "from_le (take 4 (to_le 4 n @ rest)) = n"
      unfolding from_le_take_to_le by simp
    then show ?thesis
      using 3 by (simp add: WriteVarInt_def ReadVarInt_def m)
  next
    case 4
    then have "from_le (take 8 (to_le 8 n @ rest)) = n"
      unfolding from_le_take_to_le using assms by simp
    then show ?thesis
      using 4 by (simp add: WriteVarInt_def ReadVarInt_def m)
  qed
qed

lemma ReadVarBytes_WriteVarInt:
  assumes "length val \<le> maxAllowed" and "maxAllowed < 2 ^ 64"
  shows "ReadVarBytes (WriteVarInt (length val) @ val @ rest) maxAllowed = Inr (val, rest)"
proof -
  have "length val < 2 ^ 64"
    using assms by simp
  from ReadVarInt_WriteVarInt [OF this] assms(1) show ?thesis
    by (simp add: ReadVarBytes_def)
qed

lemma getKey_kvPair:
  assumes "kt \<noteq> Separator p" and "length (bytes_of keydata) < 2 ^ 64"
  shows "getKey p (kvPair kt keydata val @ rest) =
           Inr (uint kt, if bytes_of keydata = [] then None else Some (bytes_of keydata),
                WriteVarInt (length val) @ val @ rest)"
  using assms(1) ReadVarInt_WriteVarInt [OF assms(2)]
  by (simp add: getKey_def kvPair_def)

lemma deserialize_kvPair:
  assumes "kt \<noteq> Separator p" and "length (bytes_of keydata) < 2 ^ 64"
    and "length val \<le> MaxPsbtValueLength p" and "MaxPsbtValueLength p < 2 ^ 64"
  shows "deserialize p (kvPair kt keydata val @ rest) po =
           (case deserialize_field p (uint kt)
                   (if bytes_of keydata = [] then None else Some (bytes_of keydata)) val po of
              Inl err \<Rightarrow> (Inl err, po)
            | Inr po' \<Rightarrow> deserialize p rest po')"
  by (rule deserialize_record [OF getKey_kvPair [OF assms(1,2)] _
        ReadVarBytes_WriteVarInt [OF assms(3,4)]]) simp

lemma put_uint32_shape: "\<exists>a b c d. put_uint32 x = [a, b, c, d]"
  by (simp add: put_uint32_def to_le_numeral)

lemma length_put_uint32 [simp]: "length (put_uint32 x) = 4"
  by (simp add: put_uint32_def)

lemma from_le_put_uint32: "of_nat (from_le (put_uint32 x)) = x"
proof -
  have "unat x < 4294967296"
    using unsigned_less [of x] by simp
  then show ?thesis
    by (simp add: put_uint32_def from_le_to_le)
qed

lemma get_uint32s_put_uint32: "get_uint32s (put_uint32 x @ rest) = x # get_uint32s rest"
proof -
  from put_uint32_shape obtain a b c d where s: "put_uint32 x = [a, b, c, d]"
    by blast
  have "get_uint32s (put_uint32 x @ rest) = of_nat (from_le (put_uint32 x)) # get_uint32s rest"
    unfolding s by simp
  then show ?thesis
    by (simp only: from_le_put_uint32)
qed

lemma get_uint32s_path: "get_uint32s (concat (map put_uint32 path)) = path"
  by (induction path) (simp_all add: get_uint32s_put_uint32)

lemma length_path: "length (concat (map put_uint32 path)) = 4 * length path"
  by (induction path) simp_all

lemma length_SerializeBIP32Derivation:
  "length (SerializeBIP32Derivation master path) = 4 + 4 * length path"
  by (simp add: SerializeBIP32Derivation_def length_path)

lemma readBip32Derivation_Serialize:
  "readBip32Derivation (SerializeBIP32Derivation master path) = Inr (master, path)"
  by (simp add: readBip32Derivation_def SerializeBIP32Derivation_def length_path
        from_le_put_uint32 get_uint32s_path)

lemma get_hashes_concat:
  "list_all (\<lambda>h. length h = 32) hs \<Longrightarrow> get_hashes (length hs) (concat hs @ rest) = hs"
  by (induction hs) simp_all

lemma length_concat_hashes:
  "list_all (\<lambda>h. length h = 32) hs \<Longrightarrow> length (concat hs) = length hs * 32"
  by (induction hs) simp_all

lemma readTaprootBip32Derivation_value:
  assumes "list_all (\<lambda>h. length h = 32) (LeafHashes d)"
    and "length (LeafHashes d) < 2 ^ 64"
  shows "readTaprootBip32Derivation (XOnlyPubKey d) (Taproot_value d) = Inr d"
proof -
  let ?tail = "SerializeBIP32Derivation (TapMasterKeyFingerprint d) (TapBip32Path d)"
  have v: "ReadVarInt (Taproot_value d)
      = Inr (length (LeafHashes d), concat (LeafHashes d) @ ?tail)"
    unfolding Taproot_value_def by (rule ReadVarInt_WriteVarInt [OF assms(2)])
  have l: "length (concat (LeafHashes d)) = length (LeafHashes d) * 32"
    using assms(1) by (rule length_concat_hashes)
  have h: "get_hashes (length (LeafHashes d)) (concat (LeafHashes d) @ ?tail) = LeafHashes d"
    using assms(1) by (rule get_hashes_concat)
  have t: "drop (length (LeafHashes d) * 32) (concat (LeafHashes d) @ ?tail) = ?tail"
    using l by simp
  show ?thesis
    unfolding readTaprootBip32Derivation_def v
    by (simp add: l h t readBip32Derivation_Serialize del: drop_append)
qed

section \<open>Reading back the records of a POutput\<close>

lemma distinct_codes_separator:
  assumes "distinct_codes p"
  shows "RedeemScriptOutputType p \<noteq> Separator p"
    and "WitnessScriptOutputType p \<noteq> Separator p"
    and "Bip32DerivationOutputType p \<noteq> Separator p"
    and "TaprootInternalKeyOutputType p \<noteq> Separator p"
    and "TaprootTapTreeType p \<noteq> Separator p"
    and "TaprootBip32DerivationOutputType p \<noteq> Separator p"
  using assms by (auto simp: distinct_codes_def)

lemma read_back_optional:
  assumes "kt \<noteq> Separator p" and "MaxPsbtValueLength p < 2 ^ 64"
    and "valid_optional p field"
    and "\<And>val. field = Some val \<Longrightarrow> deserialize_field p (uint kt) None val po = Inr (upd po)"
    and "field = None \<Longrightarrow> upd po = po"
  shows "deserialize p (optional_record kt field @ rest) po = deserialize p rest (upd po)"
proof (cases field)
  case None
  then show ?thesis
    using assms(5) by (simp add: optional_record_def)
next
  case (Some val)
  have "length val \<le> MaxPsbtValueLength p"
    using assms(3) Some by (simp add: valid_optional_def)
  from deserialize_kvPair [OF assms(1) _ this assms(2), of None rest po] assms(4) [OF Some]
  show ?thesis
    by (simp add: Some optional_record_def bytes_of_def)
qed

lemma read_back_RedeemScript:
  assumes "distinct_codes p" and "MaxPsbtValueLength p < 2 ^ 64"
    and "valid_optional p field" and "RedeemScript po = None"
  shows "deserialize p (optional_record (RedeemScriptOutputType p) field @ rest) po
           = deserialize p rest (po\<lparr>RedeemScript := field\<rparr>)"
proof (rule read_back_optional [OF distinct_codes_separator(1) [OF assms(1)] assms(2,3)])
  show "deserialize_field p (uint (RedeemScriptOutputType p)) None val po
          = Inr (po\<lparr>RedeemScript := field\<rparr>)" if "field = Some val" for val
    using that assms(4) by (simp add: deserialize_field_RedeemScript)
  show "po\<lparr>RedeemScript := field\<rparr> = po" if "field = None"
    using that assms(4) by (cases po) simp
qed

lemma read_back_WitnessScript:
  assumes "distinct_codes p" and "MaxPsbtValueLength p < 2 ^ 64"
    and "valid_optional p field" and "WitnessScript po = None"
  shows "deserialize p (optional_record (WitnessScriptOutputType p) field @ rest) po
           = deserialize p rest (po\<lparr>WitnessScript := field\<rparr>)"
proof (rule read_back_optional [OF distinct_codes_separator(2) [OF assms(1)] assms(2,3)])
  show "deserialize_field p (uint (WitnessScriptOutputType p)) None val po
          = Inr (po\<lparr>WitnessScript := field\<rparr>)" if "field = Some val" for val
    using that assms(4) by (simp add: deserialize_field_WitnessScript [OF assms(1)])
  show "po\<lparr>WitnessScript := field\<rparr> = po" if "field = None"
    using that assms(4) by (cases po) simp
qed

lemma read_back_TaprootInternalKey:
  assumes "distinct_codes p" and "MaxPsbtValueLength p < 2 ^ 64"
    and "valid_optional p field" and "TaprootInternalKey po = None"
    and "\<And>val. field = Some val \<Longrightarrow> validateXOnlyPubkey val"
  shows "deserialize p (optional_record (TaprootInternalKeyOutputType p) field @ rest) po
           = deserialize p rest (po\<lparr>TaprootInternalKey := field\<rparr>)"
proof (rule read_back_optional [OF distinct_codes_separator(4) [OF assms(1)] assms(2,3)])
  show "deserialize_field p (uint (TaprootInternalKeyOutputType p)) None val po
          = Inr (po\<lparr>TaprootInternalKey := field\<rparr>)" if "field = Some val" for val
    using that assms(4) assms(5) [OF that]
    by (simp add: deserialize_field_TaprootInternalKey [OF assms(1)])
  show "po\<lparr>TaprootInternalKey := field\<rparr> = po" if "field = None"
    using that assms(4) by (cases po) simp
qed

lemma read_back_TaprootTapTree:
  assumes "distinct_codes p" and "MaxPsbtValueLength p < 2 ^ 64"
    and "valid_optional p field" and "TaprootTapTree po = None"
  shows "deserialize p (optional_record (TaprootTapTreeType p) field @ rest) po
           = deserialize p rest (po\<lparr>TaprootTapTree := field\<rparr>)"
proof (rule read_back_optional [OF distinct_codes_separator(5) [OF assms(1)] assms(2,3)])
  show "deserialize_field p (uint (TaprootTapTreeType p)) None val po
          = Inr (po\<lparr>TaprootTapTree := field\<rparr>)" if "field = Some val" for val
    using that assms(4) by (simp add: deserialize_field_TaprootTapTree [OF assms(1)])
  show "po\<lparr>TaprootTapTree := field\<rparr> = po" if "field = None"
    using that assms(4) by (cases po) simp
qed

lemma read_back_Bip32Derivation:
  assumes "distinct_codes p" and "MaxPsbtValueLength p < 2 ^ 64"
    and "list_all (valid_Bip32 p) kds"
    and "distinct (map PubKey (Bip32Derivation po @ kds))"
  shows "deserialize p (concat (map (Bip32_record p) kds) @ rest) po
           = deserialize p rest (po\<lparr>Bip32Derivation := Bip32Derivation po @ kds\<rparr>)"
  using assms(3,4)
proof (induction kds arbitrary: po)
  case Nil
  show ?case by simp
next
  case (Cons kd kds)
  let ?val = "SerializeBIP32Derivation (MasterKeyFingerprint kd) (Bip32Path kd)"
  let ?po = "po\<lparr>Bip32Derivation := Bip32Derivation po @ [kd]\<rparr>"
  from Cons.prems(1) have this_valid: "valid_Bip32 p kd"
    and rest_valid: "list_all (valid_Bip32 p) kds"
    by simp_all
  from this_valid have valid: "validatePubkey (PubKey kd)"
    and len: "length ?val \<le> MaxPsbtValueLength p"
    by (simp_all add: valid_Bip32_def length_SerializeBIP32Derivation)
  have key: "length (bytes_of (Some (PubKey kd))) < 2 ^ 64" "bytes_of (Some (PubKey kd)) \<noteq> []"
    using valid by (auto simp: validatePubkey_def bytes_of_def)
  have fresh: "\<not> list_ex (\<lambda>x. PubKey x = PubKey kd) (Bip32Derivation po)"
    using Cons.prems(2) by (auto simp: list_ex_iff image_iff)
  have field: "deserialize_field p (uint (Bip32DerivationOutputType p)) (Some (PubKey kd)) ?val po
      = Inr ?po"
    using valid fresh
    by (simp add: deserialize_field_Bip32Derivation [OF assms(1)] readBip32Derivation_Serialize
          bytes_of_def)
  have step: "deserialize p (kvPair (Bip32DerivationOutputType p) (Some (PubKey kd)) ?val @ s) po
      = deserialize p s ?po" for s
    using deserialize_kvPair [OF distinct_codes_separator(3) [OF assms(1)] key(1) len assms(2),
        of s po] key(2) field
    by (simp add: bytes_of_def)
  have "deserialize p (Bip32_record p kd @ concat (map (Bip32_record p) kds) @ rest) po
      = deserialize p (concat (map (Bip32_record p) kds) @ rest) ?po"
    unfolding Bip32_record_def [of p kd] by (rule step)
  also have "\<dots> = deserialize p rest (?po\<lparr>Bip32Derivation := Bip32Derivation ?po @ kds\<rparr>)"
    using Cons.prems(2) by (intro Cons.IH [OF rest_valid]) simp
  finally show ?case by simp
qed

lemma Taproot_hashes_count:
  assumes "list_all (\<lambda>h. length h = 32) (LeafHashes d)"
  shows "length (LeafHashes d) \<le> length (Taproot_value d)"
  using length_concat_hashes [OF assms] by (simp add: Taproot_value_def)

lemma read_back_TaprootBip32Derivation:
  assumes "distinct_codes p" and "MaxPsbtValueLength p < 2 ^ 64"
    and "list_all (valid_Taproot p) ds"
    and "distinct (map XOnlyPubKey (TaprootBip32Derivation po @ ds))"
  shows "deserialize p (concat (map (Taproot_record p) ds) @ rest) po
           = deserialize p rest
               (po\<lparr>TaprootBip32Derivation := TaprootBip32Derivation po @ ds\<rparr>)"
  using assms(3,4)
proof (induction ds arbitrary: po)
  case Nil
  show ?case by simp
next
  case (Cons d ds)
  let ?po = "po\<lparr>TaprootBip32Derivation := TaprootBip32Derivation po @ [d]\<rparr>"
  from Cons.prems(1) have this_valid: "valid_Taproot p d"
    and rest_valid: "list_all (valid_Taproot p) ds"
    by simp_all
  from this_valid have valid: "validateXOnlyPubkey (XOnlyPubKey d)"
    and hashes: "list_all (\<lambda>h. length h = 32) (LeafHashes d)"
    and len: "length (Taproot_value d) \<le> MaxPsbtValueLength p"
    by (simp_all add: valid_Taproot_def)
  have "length (LeafHashes d) < 2 ^ 64"
    using Taproot_hashes_count [OF hashes] len assms(2) by linarith
  with hashes have parse: "readTaprootBip32Derivation (XOnlyPubKey d) (Taproot_value d) = Inr d"
    by (rule readTaprootBip32Derivation_value)
  have key: "length (bytes_of (Some (XOnlyPubKey d))) < 2 ^ 64"
    "bytes_of (Some (XOnlyPubKey d)) \<noteq> []"
    using valid by (auto simp: validateXOnlyPubkey_def bytes_of_def)
  have fresh: "\<not> list_ex (\<lambda>x. XOnlyPubKey x = XOnlyPubKey d) (TaprootBip32Derivation po)"
    using Cons.prems(2) by (auto simp: list_ex_iff image_iff)
  have field: "deserialize_field p (uint (TaprootBip32DerivationOutputType p))
      (Some (XOnlyPubKey d)) (Taproot_value d) po = Inr ?po"
    using valid fresh parse
    by (simp add: deserialize_field_TaprootBip32Derivation [OF assms(1)] bytes_of_def)
  have step: "deserialize p
        (kvPair (TaprootBip32DerivationOutputType p) (Some (XOnlyPubKey d)) (Taproot_value d) @ s) po
      = deserialize p s ?po" for s
    using deserialize_kvPair [OF distinct_codes_separator(6) [OF assms(1)] key(1) len assms(2),
        of s po] key(2) field
    by (simp add: bytes_of_def)
  have "deserialize p (Taproot_record p d @ concat (map (Taproot_record p) ds) @ rest) po
      = deserialize p (concat (map (Taproot_record p) ds) @ rest) ?po"
    unfolding Taproot_record_def [of p d] by (rule step)
  also have "\<dots> = deserialize p rest
      (?po\<lparr>TaprootBip32Derivation := TaprootBip32Derivation ?po @ ds\<rparr>)"
    using Cons.prems(2) by (intro Cons.IH [OF rest_valid]) simp
  finally show ?case by simp
qed

lemma valid_canonical:
  assumes "valid_POutput p po"
  shows "valid_POutput p (canonical po)"
  using assms
  by (simp add: valid_POutput_def canonical_def sort_by_Bip32 sort_by_Taproot
        distinct_map list_all_iff)

lemma deserialize_end: "deserialize p (Separator p # rest) po = (Inr rest, po)"
  by (rule deserialize_separator [where keydata = None]) (simp add: getKey_def)

lemma read_back_records:
  assumes "distinct_codes p" and "MaxPsbtValueLength p < 2 ^ 64" and "valid_POutput p po"
  shows "deserialize p (records p po @ Separator p # rest) empty_POutput = (Inr rest, po)"
proof -
  let ?e1 = "empty_POutput\<lparr>RedeemScript := RedeemScript po\<rparr>"
  let ?e2 = "?e1\<lparr>WitnessScript := WitnessScript po\<rparr>"
  let ?e3 = "?e2\<lparr>Bip32Derivation := Bip32Derivation ?e2 @ Bip32Derivation po\<rparr>"
  let ?e4 = "?e3\<lparr>TaprootInternalKey := TaprootInternalKey po\<rparr>"
  let ?e5 = "?e4\<lparr>TaprootTapTree := TaprootTapTree po\<rparr>"
  let ?e6 = "?e5\<lparr>TaprootBip32Derivation :=
               TaprootBip32Derivation ?e5 @ TaprootBip32Derivation po\<rparr>"
  let ?r6 = "Separator p # rest"
  let ?r5 = "concat (map (Taproot_record p) (TaprootBip32Derivation po)) @ ?r6"
  let ?r4 = "optional_record (TaprootTapTreeType p) (TaprootTapTree po) @ ?r5"
  let ?r3 = "optional_record (TaprootInternalKeyOutputType p) (TaprootInternalKey po) @ ?r4"
  let ?r2 = "concat (map (Bip32_record p) (Bip32Derivation po)) @ ?r3"
  let ?r1 = "optional_record (WitnessScriptOutputType p) (WitnessScript po) @ ?r2"
  from assms(3) have v1: "valid_optional p (RedeemScript po)"
    and v2: "valid_optional p (WitnessScript po)"
    and v3: "list_all (valid_Bip32 p) (Bip32Derivation po)"
    and d3: "distinct (map PubKey (Bip32Derivation po))"
    and v4: "valid_optional p (TaprootInternalKey po)"
    and x4: "\<And>val. TaprootInternalKey po = Some val \<Longrightarrow> validateXOnlyPubkey val"
    and v5: "valid_optional p (TaprootTapTree po)"
    and v6: "list_all (valid_Taproot p) (TaprootBip32Derivation po)"
    and d6: "distinct (map XOnlyPubKey (TaprootBip32Derivation po))"
    by (simp_all add: valid_POutput_def)
  have "deserialize p (records p po @ ?r6) empty_POutput
      = deserialize p (optional_record (RedeemScriptOutputType p) (RedeemScript po) @ ?r1)
          empty_POutput"
    by (simp add: records_def)
  also have "\<dots> = deserialize p ?r1 ?e1"
    by (rule read_back_RedeemScript [OF assms(1,2) v1]) (simp add: example_defs)
  also have "\<dots> = deserialize p ?r2 ?e2"
    by (rule read_back_WitnessScript [OF assms(1,2) v2]) (simp add: example_defs)
  also have "\<dots> = deserialize p ?r3 ?e3"
    by (rule read_back_Bip32Derivation [OF assms(1,2) v3]) (simp add: example_defs d3)
  also have "\<dots> = deserialize p ?r4 ?e4"
    by (rule read_back_TaprootInternalKey [OF assms(1,2) v4 _ x4])
       (simp_all add: example_defs)
  also have "\<dots> = deserialize p ?r5 ?e5"
    by (rule read_back_TaprootTapTree [OF assms(1,2) v5]) (simp add: example_defs)
  also have "\<dots> = deserialize p ?r6 ?e6"
    by (rule read_back_TaprootBip32Derivation [OF assms(1,2) v6]) (simp add: example_defs d6)
  also have "\<dots> = (Inr rest, ?e6)"
    by (rule deserialize_end)
  also have "?e6 = po"
    by (cases po) (simp add: example_defs)
  finally show ?thesis .
qed

section \<open>Unknown type codes\<close>

text \<open>
  Claim C6. A record of the stream whose type code is none of the six recognized output
  types (and is not the separator) makes \<^verbatim>\<open>deserialize\<close> fail with
  \<open>ErrInvalidPsbtFormat\<close>, the \<^verbatim>\<open>default\<close> case of the switch: no unknown type is
  tolerated. The POutput is left as the records before it made it.
\<close>

theorem deserialize_unknown_type:
  assumes "field_at p n r po = Some (keyint, keydata, val, po')"
    and "keyint \<notin> uint ` set (output_types p)"
  shows "deserialize p r po = (Inl ErrInvalidPsbtFormat, po')"
proof -
  have "deserialize_field p keyint keydata val po' = Inl ErrInvalidPsbtFormat"
    using assms(2) by (simp add: deserialize_field_def output_types_def)
  with assms(1) show ?thesis
    by (rule field_at_error)
qed

theorem deserialize_unknown_type_witness:
  "field_at example_params (Suc 0) [1, 0, 1, 0x51, 9, 0, 0, 0xFF] empty_POutput
     = Some (9, None, [], NewPsbtOutput (Some [0x51]) None [])
   \<and> 9 \<notin> uint ` set (output_types example_params)
   \<and> deserialize example_params [1, 0, 1, 0x51, 9, 0, 0, 0xFF] empty_POutput
     = (Inl ErrInvalidPsbtFormat, NewPsbtOutput (Some [0x51]) None [])"
proof -
  have f: "field_at example_params (Suc 0) [1, 0, 1, 0x51, 9, 0, 0, 0xFF] empty_POutput
     = Some (9, None, [], NewPsbtOutput (Some [0x51]) None [])"
    by (simp add: field_defs stream_defs example_defs)
  have u: "9 \<notin> uint ` set (output_types example_params)"
    by (simp add: output_types_def example_defs)
  show ?thesis
    using f u deserialize_unknown_type [OF f u] by (intro conjI)
qed

section \<open>The Taproot internal key\<close>

text \<open>
  Claim C7. When the loop reads a record of the Taproot-internal-key type,
  \<^verbatim>\<open>deserialize\<close> fails with \<open>ErrDuplicateKey\<close> if the internal key is already set,
  otherwise with \<open>ErrInvalidKeydata\<close> if the record has key data, otherwise with
  \<open>ErrInvalidKeydata\<close> if the value fails \<^verbatim>\<open>validateXOnlyPubkey\<close>; otherwise it
  stores the value and goes on with the next record, and the value is the Taproot
  internal key of the record that the call leaves.
\<close>

theorem deserialize_TaprootInternalKey:
  assumes "distinct_codes p"
    and "getKey p r = Inr (uint (TaprootInternalKeyOutputType p), keydata, r1)"
    and "ReadVarBytes r1 (MaxPsbtValueLength p) = Inr (val, r2)"
  shows "deserialize p r po =
           (if TaprootInternalKey po \<noteq> None then (Inl ErrDuplicateKey, po)
            else if keydata \<noteq> None then (Inl ErrInvalidKeydata, po)
            else if \<not> validateXOnlyPubkey val then (Inl ErrInvalidKeydata, po)
            else deserialize p r2 (po\<lparr>TaprootInternalKey := Some val\<rparr>))
         \<and> (TaprootInternalKey po = None \<and> keydata = None \<and> validateXOnlyPubkey val
              \<longrightarrow> TaprootInternalKey (snd (deserialize p r po)) = Some val)"
proof -
  have f: "deserialize_field p (uint (TaprootInternalKeyOutputType p)) keydata val po =
      (if TaprootInternalKey po \<noteq> None then Inl ErrDuplicateKey
       else if keydata \<noteq> None then Inl ErrInvalidKeydata
       else if \<not> validateXOnlyPubkey val then Inl ErrInvalidKeydata
       else Inr (po\<lparr>TaprootInternalKey := Some val\<rparr>))"
    using assms(1) by (rule deserialize_field_TaprootInternalKey)
  have d: "deserialize p r po =
           (if TaprootInternalKey po \<noteq> None then (Inl ErrDuplicateKey, po)
            else if keydata \<noteq> None then (Inl ErrInvalidKeydata, po)
            else if \<not> validateXOnlyPubkey val then (Inl ErrInvalidKeydata, po)
            else deserialize p r2 (po\<lparr>TaprootInternalKey := Some val\<rparr>))"
    using deserialize_record [OF assms(2) _ assms(3), of po] f by simp
  have "TaprootInternalKey (snd (deserialize p r2 (po\<lparr>TaprootInternalKey := Some val\<rparr>)))
          = Some val"
    using deserialize_extends [of "po\<lparr>TaprootInternalKey := Some val\<rparr>" p r2]
    by (simp add: extends_def keeps_def)
  with d show ?thesis by simp
qed

theorem deserialize_TaprootInternalKey_witness:
  "distinct_codes example_params
   \<and> getKey example_params ([4, 0, 32] @ replicate 32 0x11 @ [0xFF])
       = Inr (uint (TaprootInternalKeyOutputType example_params), None,
              32 # replicate 32 0x11 @ [0xFF])
   \<and> ReadVarBytes (32 # replicate 32 0x11 @ [0xFF]) (MaxPsbtValueLength example_params)
       = Inr (replicate 32 0x11, [0xFF])
   \<and> deserialize example_params ([4, 0, 32] @ replicate 32 0x11 @ [0xFF]) empty_POutput
       = (Inr [], empty_POutput\<lparr>TaprootInternalKey := Some (replicate 32 0x11)\<rparr>)"
proof -
  have c: "distinct_codes example_params"
    by (simp add: distinct_codes_def example_defs)
  have k: "getKey example_params ([4, 0, 32] @ replicate 32 0x11 @ [0xFF])
       = Inr (uint (TaprootInternalKeyOutputType example_params), None,
              32 # replicate 32 0x11 @ [0xFF])"
    by (simp add: stream_defs example_defs)
  have v: "ReadVarBytes (32 # replicate 32 0x11 @ [0xFF]) (MaxPsbtValueLength example_params)
       = Inr (replicate 32 0x11, [0xFF])"
    by (simp add: stream_defs example_defs)
  have e: "deserialize example_params [0xFF] po = (Inr [], po)" for po
    by (rule deserialize_separator [where keydata = None]) (simp add: stream_defs example_defs)
  have t: "TaprootInternalKey empty_POutput = None"
    by (simp add: example_defs)
  have x: "validateXOnlyPubkey (replicate 32 0x11)"
    by (simp add: validateXOnlyPubkey_def)
  show ?thesis
    using deserialize_TaprootInternalKey [OF c k v, of empty_POutput] c k v
    by (simp add: e t x)
qed

section \<open>Duplicate keys\<close>

text \<open>
  Claim C4, as stated, fails in its second half: the BIP32 case parses the value of a
  record before it scans the stored entries for the same public key. In the stream below
  both records are BIP32-derivation records with the key \<open>0x02AA\<dots>\<close>, the second with a
  value of three bytes, and \<^verbatim>\<open>deserialize\<close> fails with the error of
  \<^verbatim>\<open>readBip32Derivation\<close>, not with \<open>ErrDuplicateKey\<close>.
\<close>

theorem deserialize_duplicate_key_counterexample:
  "field_at example_params 0
     ([3, 33] @ key_02AA @ [4, 1, 2, 3, 4] @ [3, 33] @ key_02AA @ [3, 5, 6, 7] @ [0xFF])
     empty_POutput
     = Some (uint (Bip32DerivationOutputType example_params), Some key_02AA, [1, 2, 3, 4],
             empty_POutput)
   \<and> field_at example_params (Suc 0)
     ([3, 33] @ key_02AA @ [4, 1, 2, 3, 4] @ [3, 33] @ key_02AA @ [3, 5, 6, 7] @ [0xFF])
     empty_POutput
     = Some (uint (Bip32DerivationOutputType example_params), Some key_02AA, [5, 6, 7],
             NewPsbtOutput None None
               [\<lparr>PubKey = key_02AA, MasterKeyFingerprint = 0x04030201, Bip32Path = []\<rparr>])
   \<and> deserialize example_params
     ([3, 33] @ key_02AA @ [4, 1, 2, 3, 4] @ [3, 33] @ key_02AA @ [3, 5, 6, 7] @ [0xFF])
     empty_POutput
     = (Inl ErrMalformed,
        NewPsbtOutput None None
          [\<lparr>PubKey = key_02AA, MasterKeyFingerprint = 0x04030201, Bip32Path = []\<rparr>])
   \<and> fst (deserialize example_params
     ([3, 33] @ key_02AA @ [4, 1, 2, 3, 4] @ [3, 33] @ key_02AA @ [3, 5, 6, 7] @ [0xFF])
     empty_POutput) \<noteq> Inl ErrDuplicateKey"
  by (simp add: deserialize.simps field_defs stream_defs example_defs key_02AA_def bytes_of_def
        validatePubkey_def readBip32Derivation_def)

text \<open>
  Claim C4, amended. A stream in which two records are RedeemScript fields makes
  \<^verbatim>\<open>deserialize\<close> fail with \<open>ErrDuplicateKey\<close>. A stream in which two records are
  BIP32-derivation records with the same public key as key data makes it fail: with
  \<open>ErrDuplicateKey\<close> when the value of the second parses as a derivation, with the error
  of \<^verbatim>\<open>readBip32Derivation\<close> when it does not. The records are numbers \<open>i < j\<close> of the
  stream; that record \<open>j\<close> is reached says that the records before it, the first of the
  two among them, were stored.
\<close>

theorem deserialize_duplicate_key:
  assumes "distinct_codes p" and "i < j"
    and "field_at p i r po = Some (ka, kda, va, pa)"
    and "field_at p j r po = Some (kb, kdb, vb, pb)"
  shows "(ka = uint (RedeemScriptOutputType p) \<and> kb = uint (RedeemScriptOutputType p)
            \<longrightarrow> deserialize p r po = (Inl ErrDuplicateKey, pb))
       \<and> (ka = uint (Bip32DerivationOutputType p) \<and> kb = uint (Bip32DerivationOutputType p)
          \<and> bytes_of kda = bytes_of kdb
            \<longrightarrow> deserialize p r po =
                  (Inl (if readBip32Derivation vb = Inl ErrMalformed then ErrMalformed
                        else ErrDuplicateKey), pb))"
proof (intro conjI impI)
  from field_at_stored [OF assms(3,4,2)] obtain pa' where
    f: "deserialize_field p ka kda va pa = Inr pa'" and e: "extends pa' pb"
    by blast
  {
    assume "ka = uint (RedeemScriptOutputType p) \<and> kb = uint (RedeemScriptOutputType p)"
    then have k: "ka = uint (RedeemScriptOutputType p)" "kb = uint (RedeemScriptOutputType p)"
      by simp_all
    from f have "RedeemScript pa' = Some va"
      unfolding k deserialize_field_RedeemScript by (auto split: if_splits)
    with e have "RedeemScript pb \<noteq> None"
      by (simp add: extends_def keeps_def)
    then have "deserialize_field p kb kdb vb pb = Inl ErrDuplicateKey"
      unfolding k deserialize_field_RedeemScript by simp
    with assms(4) show "deserialize p r po = (Inl ErrDuplicateKey, pb)"
      by (rule field_at_error)
  }
  {
    assume "ka = uint (Bip32DerivationOutputType p) \<and> kb = uint (Bip32DerivationOutputType p)
          \<and> bytes_of kda = bytes_of kdb"
    then have k: "ka = uint (Bip32DerivationOutputType p)"
        "kb = uint (Bip32DerivationOutputType p)"
      and same: "bytes_of kda = bytes_of kdb"
      by simp_all
    from f obtain d where valid: "validatePubkey (bytes_of kda)"
      and pa': "pa' = pa\<lparr>Bip32Derivation := Bip32Derivation pa @ [d]\<rparr>"
      and d: "PubKey d = bytes_of kda"
      unfolding k deserialize_field_Bip32Derivation [OF assms(1)]
      by (auto split: if_splits sum.splits prod.splits)
    have "d \<in> set (Bip32Derivation pa')"
      by (simp add: pa')
    moreover have "set (Bip32Derivation pa') \<subseteq> set (Bip32Derivation pb)"
      using e set_take_subset [of "length (Bip32Derivation pa')" "Bip32Derivation pb"]
      by (simp add: extends_def)
    ultimately have dup: "list_ex (\<lambda>x. PubKey x = bytes_of kdb) (Bip32Derivation pb)"
      using d same by (auto simp: list_ex_iff)
    have "deserialize_field p kb kdb vb pb =
        Inl (if readBip32Derivation vb = Inl ErrMalformed then ErrMalformed
             else ErrDuplicateKey)"
    proof (cases "readBip32Derivation vb")
      case (Inl err)
      then have "err = ErrMalformed"
        by (auto simp: readBip32Derivation_def split: if_splits)
      with Inl show ?thesis
        unfolding k deserialize_field_Bip32Derivation [OF assms(1)]
        using valid same by simp
    next
      case (Inr x)
      then show ?thesis
        unfolding k deserialize_field_Bip32Derivation [OF assms(1)]
        using valid same dup by (cases x) simp
    qed
    with assms(4) show "deserialize p r po =
        (Inl (if readBip32Derivation vb = Inl ErrMalformed then ErrMalformed
              else ErrDuplicateKey), pb)"
      by (rule field_at_error)
  }
qed

theorem deserialize_duplicate_key_witness:
  "distinct_codes example_params \<and> (0 :: nat) < Suc (Suc 0)
   \<and> field_at example_params 0 [1, 0, 1, 0x51, 2, 0, 1, 0x52, 1, 0, 1, 0x53, 0xFF] empty_POutput
       = Some (uint (RedeemScriptOutputType example_params), None, [0x51], empty_POutput)
   \<and> field_at example_params (Suc (Suc 0))
         [1, 0, 1, 0x51, 2, 0, 1, 0x52, 1, 0, 1, 0x53, 0xFF] empty_POutput
       = Some (uint (RedeemScriptOutputType example_params), None, [0x53],
               NewPsbtOutput (Some [0x51]) (Some [0x52]) [])
   \<and> deserialize example_params [1, 0, 1, 0x51, 2, 0, 1, 0x52, 1, 0, 1, 0x53, 0xFF] empty_POutput
       = (Inl ErrDuplicateKey, NewPsbtOutput (Some [0x51]) (Some [0x52]) [])
   \<and> (0 :: nat) < Suc 0
   \<and> field_at example_params 0
         ([3, 33] @ key_02AA @ [4, 1, 2, 3, 4] @ [3, 33] @ key_02AA @ [4, 5, 6, 7, 8] @ [0xFF])
         empty_POutput
       = Some (uint (Bip32DerivationOutputType example_params), Some key_02AA, [1, 2, 3, 4],
               empty_POutput)
   \<and> field_at example_params (Suc 0)
         ([3, 33] @ key_02AA @ [4, 1, 2, 3, 4] @ [3, 33] @ key_02AA @ [4, 5, 6, 7, 8] @ [0xFF])
         empty_POutput
       = Some (uint (Bip32DerivationOutputType example_params), Some key_02AA, [5, 6, 7, 8],
               NewPsbtOutput None None
                 [\<lparr>PubKey = key_02AA, MasterKeyFingerprint = 0x04030201, Bip32Path = []\<rparr>])
   \<and> readBip32Derivation [5, 6, 7, 8] \<noteq> Inl ErrMalformed
   \<and> deserialize example_params
         ([3, 33] @ key_02AA @ [4, 1, 2, 3, 4] @ [3, 33] @ key_02AA @ [4, 5, 6, 7, 8] @ [0xFF])
         empty_POutput
       = (Inl ErrDuplicateKey,
          NewPsbtOutput None None
            [\<lparr>PubKey = key_02AA, MasterKeyFingerprint = 0x04030201, Bip32Path = []\<rparr>])"
proof -
  let ?s = "[1, 0, 1, 0x51, 2, 0, 1, 0x52, 1, 0, 1, 0x53, 0xFF] :: byte list"
  let ?t = "[3, 33] @ key_02AA @ [4, 1, 2, 3, 4] @ [3, 33] @ key_02AA @ [4, 5, 6, 7, 8] @ [0xFF]"
  let ?e = "\<lparr>PubKey = key_02AA, MasterKeyFingerprint = 0x04030201, Bip32Path = []\<rparr>"
  have c: "distinct_codes example_params"
    by (simp add: distinct_codes_def example_defs)
  have a0: "field_at example_params 0 ?s empty_POutput
       = Some (uint (RedeemScriptOutputType example_params), None, [0x51], empty_POutput)"
    by (simp add: field_defs stream_defs example_defs)
  have a2: "field_at example_params (Suc (Suc 0)) ?s empty_POutput
       = Some (uint (RedeemScriptOutputType example_params), None, [0x53],
               NewPsbtOutput (Some [0x51]) (Some [0x52]) [])"
    by (simp add: field_defs stream_defs example_defs)
  have b0: "field_at example_params 0 ?t empty_POutput
       = Some (uint (Bip32DerivationOutputType example_params), Some key_02AA, [1, 2, 3, 4],
               empty_POutput)"
    by (simp add: field_defs stream_defs example_defs key_02AA_def)
  have b1: "field_at example_params (Suc 0) ?t empty_POutput
       = Some (uint (Bip32DerivationOutputType example_params), Some key_02AA, [5, 6, 7, 8],
               NewPsbtOutput None None [?e])"
    by (simp add: field_defs stream_defs example_defs key_02AA_def bytes_of_def
          validatePubkey_def readBip32Derivation_def)
  have m: "readBip32Derivation [5, 6, 7, 8] \<noteq> Inl ErrMalformed"
    by (simp add: readBip32Derivation_def)
  have lt: "(0 :: nat) < Suc (Suc 0)" "(0 :: nat) < Suc 0"
    by simp_all
  have "deserialize example_params ?s empty_POutput
       = (Inl ErrDuplicateKey, NewPsbtOutput (Some [0x51]) (Some [0x52]) [])"
    using deserialize_duplicate_key [OF c lt(1) a0 a2] by simp
  moreover have "deserialize example_params ?t empty_POutput
       = (Inl ErrDuplicateKey, NewPsbtOutput None None [?e])"
    using deserialize_duplicate_key [OF c lt(2) b0 b1] m by simp
  ultimately show ?thesis
    using c a0 a2 b0 b1 m lt by (intro conjI)
qed

section \<open>The shape of the key data\<close>

text \<open>
  Claim C5, as stated, fails: the RedeemScript case tests for a duplicate before it looks
  at the key data. In the stream below the second record is a RedeemScript field with the
  key data \<open>0xAB\<close>, and \<^verbatim>\<open>deserialize\<close> fails with \<open>ErrDuplicateKey\<close>, not with
  \<open>ErrInvalidKeydata\<close>.
\<close>

theorem deserialize_key_data_shape_counterexample:
  "field_at example_params (Suc 0) [1, 0, 1, 0x51, 1, 1, 0xAB, 1, 0x52, 0xFF] empty_POutput
     = Some (uint (RedeemScriptOutputType example_params), Some [0xAB], [0x52],
             NewPsbtOutput (Some [0x51]) None [])
   \<and> deserialize example_params [1, 0, 1, 0x51, 1, 1, 0xAB, 1, 0x52, 0xFF] empty_POutput
     = (Inl ErrDuplicateKey, NewPsbtOutput (Some [0x51]) None [])
   \<and> fst (deserialize example_params [1, 0, 1, 0x51, 1, 1, 0xAB, 1, 0x52, 0xFF] empty_POutput)
     \<noteq> Inl ErrInvalidKeydata"
  by (simp add: deserialize.simps field_defs stream_defs example_defs)

text \<open>
  Claim C5, amended. A RedeemScript field with key data makes \<^verbatim>\<open>deserialize\<close> fail:
  with \<open>ErrInvalidKeydata\<close> when no RedeemScript is stored yet, with \<open>ErrDuplicateKey\<close>
  when one is. A BIP32-derivation field whose key data fails \<^verbatim>\<open>validatePubkey\<close> (key
  data of 32 bytes, for one) makes it fail with \<open>ErrInvalidKeydata\<close>.
\<close>

theorem deserialize_key_data_shape:
  assumes "distinct_codes p"
    and "field_at p n r po = Some (keyint, keydata, val, po')"
  shows "(keyint = uint (RedeemScriptOutputType p) \<and> keydata \<noteq> None \<longrightarrow>
            deserialize p r po =
              (Inl (if RedeemScript po' = None then ErrInvalidKeydata else ErrDuplicateKey), po'))
       \<and> (keyint = uint (Bip32DerivationOutputType p) \<and> \<not> validatePubkey (bytes_of keydata)
            \<longrightarrow> deserialize p r po = (Inl ErrInvalidKeydata, po'))"
proof (intro conjI impI)
  assume "keyint = uint (RedeemScriptOutputType p) \<and> keydata \<noteq> None"
  then have "deserialize_field p keyint keydata val po' =
      Inl (if RedeemScript po' = None then ErrInvalidKeydata else ErrDuplicateKey)"
    by (simp add: deserialize_field_RedeemScript)
  with assms(2) show "deserialize p r po =
      (Inl (if RedeemScript po' = None then ErrInvalidKeydata else ErrDuplicateKey), po')"
    by (rule field_at_error)
next
  assume "keyint = uint (Bip32DerivationOutputType p) \<and> \<not> validatePubkey (bytes_of keydata)"
  then have "deserialize_field p keyint keydata val po' = Inl ErrInvalidKeydata"
    by (simp add: deserialize_field_Bip32Derivation [OF assms(1)])
  with assms(2) show "deserialize p r po = (Inl ErrInvalidKeydata, po')"
    by (rule field_at_error)
qed

theorem deserialize_key_data_shape_witness:
  "distinct_codes example_params
   \<and> field_at example_params 0 [1, 1, 0xAB, 1, 0x52, 0xFF] empty_POutput
       = Some (uint (RedeemScriptOutputType example_params), Some [0xAB], [0x52], empty_POutput)
   \<and> deserialize example_params [1, 1, 0xAB, 1, 0x52, 0xFF] empty_POutput
       = (Inl ErrInvalidKeydata, empty_POutput)
   \<and> field_at example_params 0 ([3, 32] @ replicate 32 0x02 @ [4, 1, 2, 3, 4, 0xFF]) empty_POutput
       = Some (uint (Bip32DerivationOutputType example_params), Some (replicate 32 0x02),
               [1, 2, 3, 4], empty_POutput)
   \<and> \<not> validatePubkey (bytes_of (Some (replicate 32 0x02)))
   \<and> deserialize example_params ([3, 32] @ replicate 32 0x02 @ [4, 1, 2, 3, 4, 0xFF]) empty_POutput
       = (Inl ErrInvalidKeydata, empty_POutput)"
proof -
  let ?t = "[3, 32] @ replicate 32 0x02 @ [4, 1, 2, 3, 4, 0xFF] :: byte list"
  have c: "distinct_codes example_params"
    by (simp add: distinct_codes_def example_defs)
  have a: "field_at example_params 0 [1, 1, 0xAB, 1, 0x52, 0xFF] empty_POutput
       = Some (uint (RedeemScriptOutputType example_params), Some [0xAB], [0x52], empty_POutput)"
    by (simp add: field_defs stream_defs example_defs)
  have b: "field_at example_params 0 ?t empty_POutput
       = Some (uint (Bip32DerivationOutputType example_params), Some (replicate 32 0x02),
               [1, 2, 3, 4], empty_POutput)"
    by (simp add: field_defs stream_defs example_defs)
  have v: "\<not> validatePubkey (bytes_of (Some (replicate 32 0x02)))"
    by (simp add: validatePubkey_def bytes_of_def)
  have e: "RedeemScript empty_POutput = None"
    by (simp add: example_defs)
  have "deserialize example_params [1, 1, 0xAB, 1, 0x52, 0xFF] empty_POutput
       = (Inl ErrInvalidKeydata, empty_POutput)"
    using deserialize_key_data_shape [OF c a] e by simp
  moreover have "deserialize example_params ?t empty_POutput = (Inl ErrInvalidKeydata, empty_POutput)"
    using deserialize_key_data_shape [OF c b] v by simp
  ultimately show ?thesis
    using c a b v by (intro conjI)
qed

section \<open>A failed decode keeps what it stored\<close>

text \<open>
  Claim C10. \<^verbatim>\<open>deserialize\<close> is not atomic: when the first \<open>n\<close> records of the stream
  are stored and the call then returns an error, it leaves a POutput that still holds
  everything those records stored. In the example the record is left with a redeem script
  and a witness script, not empty as it was.
\<close>

theorem deserialize_not_atomic:
  assumes "read_fields p n r po = Some (r1, po1)"
    and "deserialize p r1 po1 = (Inl err, po2)"
  shows "deserialize p r po = (Inl err, po2) \<and> extends po1 po2"
  using read_fields_deserialize [OF assms(1)] assms(2) deserialize_extends [of po1 p r1]
  by simp

theorem deserialize_not_atomic_witness:
  "read_fields example_params (Suc (Suc 0))
     [1, 0, 1, 0x51, 2, 0, 2, 0xAA, 0xBB, 1, 0, 0, 0xFF] empty_POutput
     = Some ([1, 0, 0, 0xFF], NewPsbtOutput (Some [0x51]) (Some [0xAA, 0xBB]) [])
   \<and> deserialize example_params [1, 0, 0, 0xFF] (NewPsbtOutput (Some [0x51]) (Some [0xAA, 0xBB]) [])
     = (Inl ErrDuplicateKey, NewPsbtOutput (Some [0x51]) (Some [0xAA, 0xBB]) [])
   \<and> deserialize example_params
       [1, 0, 1, 0x51, 2, 0, 2, 0xAA, 0xBB, 1, 0, 0, 0xFF] empty_POutput
     = (Inl ErrDuplicateKey, NewPsbtOutput (Some [0x51]) (Some [0xAA, 0xBB]) [])
   \<and> extends (NewPsbtOutput (Some [0x51]) (Some [0xAA, 0xBB]) [])
        (NewPsbtOutput (Some [0x51]) (Some [0xAA, 0xBB]) [])
   \<and> NewPsbtOutput (Some [0x51]) (Some [0xAA, 0xBB]) [] \<noteq> empty_POutput"
proof -
  have f: "read_fields example_params (Suc (Suc 0))
     [1, 0, 1, 0x51, 2, 0, 2, 0xAA, 0xBB, 1, 0, 0, 0xFF] empty_POutput
     = Some ([1, 0, 0, 0xFF], NewPsbtOutput (Some [0x51]) (Some [0xAA, 0xBB]) [])"
    by (simp add: field_defs stream_defs example_defs)
  have d: "deserialize example_params [1, 0, 0, 0xFF]
       (NewPsbtOutput (Some [0x51]) (Some [0xAA, 0xBB]) [])
     = (Inl ErrDuplicateKey, NewPsbtOutput (Some [0x51]) (Some [0xAA, 0xBB]) [])"
    by (simp add: deserialize.simps field_defs stream_defs example_defs)
  have n: "NewPsbtOutput (Some [0x51]) (Some [0xAA, 0xBB]) [] \<noteq> empty_POutput"
    by (simp add: example_defs)
  show ?thesis
    using deserialize_not_atomic [OF f d] f d n by (intro conjI) simp_all
qed

section \<open>No separator\<close>

text \<open>
  Claim C2, as stated, fails: \<^verbatim>\<open>serialize\<close> returns after the loop over the Taproot
  derivations and writes no separator. For a record with the redeem script \<open>0x51\<close> it
  writes the four bytes of that field, the last of them the script byte and not the
  separator; for the empty record it writes nothing.
\<close>

theorem serialize_separator_counterexample:
  "serialize example_params buffer (NewPsbtOutput (Some [0x51]) None [])
     = (Inr \<lparr>written = [1, 0, 1, 0x51], room = None\<rparr>, NewPsbtOutput (Some [0x51]) None [])
   \<and> last [1, 0, 1, 0x51] \<noteq> Separator example_params
   \<and> serialize example_params buffer empty_POutput
     = (Inr \<lparr>written = [], room = None\<rparr>, empty_POutput)"
  by (simp add: serialize_defs example_defs)

text \<open>
  Claim C2, amended. When \<^verbatim>\<open>serialize\<close> succeeds, the bytes it has written are the
  records of the fields of the POutput (in its canonical order, as the call leaves it)
  and nothing else: no separator follows the last record.
\<close>

theorem serialize_writes_records:
  assumes "serialize p w po = (Inr w', po')"
  shows "written w' = written w @ records p po' \<and> po' = canonical po"
proof -
  have f: "fst (serialize p w po) = Inr w'"
    using assms by simp
  then have "Write w (records p (canonical po)) = Inr w'"
    by (simp add: fst_serialize)
  moreover have "po' = canonical po"
    using snd_serialize_success [OF f] assms by simp
  ultimately show ?thesis
    by (simp add: Write_written)
qed

theorem serialize_writes_records_witness:
  "serialize example_params buffer (NewPsbtOutput (Some [0x51]) (Some [0x52, 0x53]) [])
     = (Inr \<lparr>written = [1, 0, 1, 0x51, 2, 0, 2, 0x52, 0x53], room = None\<rparr>,
        NewPsbtOutput (Some [0x51]) (Some [0x52, 0x53]) [])
   \<and> [1, 0, 1, 0x51, 2, 0, 2, 0x52, 0x53]
     = written buffer @ records example_params (NewPsbtOutput (Some [0x51]) (Some [0x52, 0x53]) [])
   \<and> NewPsbtOutput (Some [0x51]) (Some [0x52, 0x53]) []
     = canonical (NewPsbtOutput (Some [0x51]) (Some [0x52, 0x53]) [])"
proof -
  have s: "serialize example_params buffer (NewPsbtOutput (Some [0x51]) (Some [0x52, 0x53]) [])
     = (Inr \<lparr>written = [1, 0, 1, 0x51, 2, 0, 2, 0x52, 0x53], room = None\<rparr>,
        NewPsbtOutput (Some [0x51]) (Some [0x52, 0x53]) [])"
    by (simp add: serialize_defs example_defs)
  show ?thesis
    using s serialize_writes_records [OF s] by simp
qed

section \<open>The order of the fields\<close>

text \<open>
  Claim C8. \<^verbatim>\<open>serialize\<close> writes the fields that are present in the fixed order
  redeem script, witness script, BIP32 derivations, Taproot internal key, Taproot tap
  tree, Taproot derivations: its outcome is that of one write of these records in this
  order, and with a writer that never fails it succeeds and has written exactly them.
  The BIP32 derivations are written in ascending lexicographic order of their public-key
  bytes, the Taproot derivations so that none sorts before an earlier one by
  \<^verbatim>\<open>SortBefore\<close>; both are the entries of the record, reordered. In the example all
  six fields are present, the BIP32 entries with the keys \<open>0x03BB\<dots>\<close> and \<open>0x02AA\<dots>\<close>
  are in this order in the record, and the entry with \<open>0x02AA\<dots>\<close> is written first.
\<close>

theorem serialize_order:
  "(let bs = sort_by Bip32Sorter_Less (Bip32Derivation po);
        ts = sort_by SortBefore (TaprootBip32Derivation po);
        bytes = optional_record (RedeemScriptOutputType p) (RedeemScript po)
           @ optional_record (WitnessScriptOutputType p) (WitnessScript po)
           @ concat (map (Bip32_record p) bs)
           @ optional_record (TaprootInternalKeyOutputType p) (TaprootInternalKey po)
           @ optional_record (TaprootTapTreeType p) (TaprootTapTree po)
           @ concat (map (Taproot_record p) ts)
    in fst (serialize p w po) = Write w bytes
       \<and> (room w = None \<longrightarrow>
            serialize p w po
              = (Inr (w\<lparr>written := written w @ bytes\<rparr>),
                 po\<lparr>Bip32Derivation := bs, TaprootBip32Derivation := ts\<rparr>))
       \<and> sorted (map PubKey bs) \<and> mset bs = mset (Bip32Derivation po)
       \<and> sorted_wrt (\<lambda>a b. \<not> SortBefore b a) ts
       \<and> mset ts = mset (TaprootBip32Derivation po))"
proof -
  let ?bs = "sort_by Bip32Sorter_Less (Bip32Derivation po)"
  let ?ts = "sort_by SortBefore (TaprootBip32Derivation po)"
  let ?bytes = "optional_record (RedeemScriptOutputType p) (RedeemScript po)
           @ optional_record (WitnessScriptOutputType p) (WitnessScript po)
           @ concat (map (Bip32_record p) ?bs)
           @ optional_record (TaprootInternalKeyOutputType p) (TaprootInternalKey po)
           @ optional_record (TaprootTapTreeType p) (TaprootTapTree po)
           @ concat (map (Taproot_record p) ?ts)"
  have r: "records p (canonical po) = ?bytes"
    by (simp add: records_def canonical_def)
  have f: "fst (serialize p w po) = Write w ?bytes"
    by (simp only: fst_serialize r)
  have s: "serialize p w po
      = (Inr (w\<lparr>written := written w @ ?bytes\<rparr>),
         po\<lparr>Bip32Derivation := ?bs, TaprootBip32Derivation := ?ts\<rparr>)"
    if "room w = None"
  proof -
    have w: "fst (serialize p w po) = Inr (w\<lparr>written := written w @ ?bytes\<rparr>)"
      unfolding f using that by (simp add: Write_def)
    from snd_serialize_success [OF w] w show ?thesis
      by (simp add: prod_eq_iff canonical_def)
  qed
  have "sorted (map XOnlyPubKey (sort_key XOnlyPubKey xs))" for xs :: "TaprootBip32Derivation list"
    by simp
  then have t: "sorted_wrt (\<lambda>a b. \<not> SortBefore b a) (sort_key XOnlyPubKey xs)"
    for xs :: "TaprootBip32Derivation list"
    by (simp add: sorted_map SortBefore_def not_less)
  have o: "sorted (map PubKey ?bs)" "mset ?bs = mset (Bip32Derivation po)"
    "sorted_wrt (\<lambda>a b. \<not> SortBefore b a) ?ts" "mset ?ts = mset (TaprootBip32Derivation po)"
    by (simp_all add: sort_by_Bip32 sort_by_Taproot t)
  show ?thesis
    unfolding Let_def using f s o by (intro conjI impI)
qed

theorem serialize_order_witness:
  "room buffer = None
   \<and> sort_by Bip32Sorter_Less (Bip32Derivation full_POutput) = [entry_02AA, entry_03BB]
   \<and> sort_by SortBefore (TaprootBip32Derivation full_POutput) = [entry_tap_low, entry_tap]
   \<and> serialize example_params buffer full_POutput
     = (Inr \<lparr>written =
          [1, 0, 1, 0x51]
          @ [2, 0, 2, 0x52, 0x53]
          @ [3, 33] @ key_02AA @ [12, 4, 3, 2, 1, 44, 0, 0, 0, 0, 0, 0, 0]
          @ [3, 33] @ key_03BB @ [4, 13, 12, 11, 10]
          @ [4, 0, 32] @ replicate 32 0x11
          @ [5, 0, 1, 0x54]
          @ [6, 32] @ replicate 32 0x21 @ [5, 0, 13, 12, 11, 10]
          @ [6, 32] @ replicate 32 0x22 @ [41, 1] @ replicate 32 0x33 @ [4, 3, 2, 1, 86, 0, 0, 0],
          room = None\<rparr>,
        full_POutput\<lparr>Bip32Derivation := [entry_02AA, entry_03BB],
                     TaprootBip32Derivation := [entry_tap_low, entry_tap]\<rparr>)"
proof -
  have n: "room buffer = None"
    by (simp add: buffer_def)
  have b: "sort_by Bip32Sorter_Less (Bip32Derivation full_POutput) = [entry_02AA, entry_03BB]"
    by (simp add: sort_by_def Bip32Sorter_Less_def full_POutput_def entry_defs)
  have "(32 :: nat) = Suc 31"
    by simp
  then have u: "replicate 32 x = x # replicate 31 x" for x :: byte
    by (simp only: replicate.simps)
  have "replicate 32 (0x21 :: byte) < replicate 32 0x22"
    unfolding u by simp
  then have t: "sort_by SortBefore (TaprootBip32Derivation full_POutput)
      = [entry_tap_low, entry_tap]"
    by (simp add: sort_by_def SortBefore_def full_POutput_def entry_tap_def entry_tap_low_def)
  have r: "optional_record (RedeemScriptOutputType example_params) (RedeemScript full_POutput)
        = [1, 0, 1, 0x51]"
    "optional_record (WitnessScriptOutputType example_params) (WitnessScript full_POutput)
        = [2, 0, 2, 0x52, 0x53]"
    "Bip32_record example_params entry_02AA
        = [3, 33] @ key_02AA @ [12, 4, 3, 2, 1, 44, 0, 0, 0, 0, 0, 0, 0]"
    "Bip32_record example_params entry_03BB = [3, 33] @ key_03BB @ [4, 13, 12, 11, 10]"
    "optional_record (TaprootInternalKeyOutputType example_params)
        (TaprootInternalKey full_POutput) = [4, 0, 32] @ replicate 32 0x11"
    "optional_record (TaprootTapTreeType example_params) (TaprootTapTree full_POutput)
        = [5, 0, 1, 0x54]"
    "Taproot_record example_params entry_tap_low
        = [6, 32] @ replicate 32 0x21 @ [5, 0, 13, 12, 11, 10]"
    "Taproot_record example_params entry_tap
        = [6, 32] @ replicate 32 0x22 @ [41, 1] @ replicate 32 0x33 @ [4, 3, 2, 1, 86, 0, 0, 0]"
    by (simp_all add: optional_record_def Bip32_record_def Taproot_record_def Taproot_value_def
          serialize_defs full_POutput_def example_params_def entry_defs entry_tap_def
          entry_tap_low_def)
  have "serialize example_params buffer full_POutput
     = (Inr (buffer\<lparr>written := written buffer
          @ [1, 0, 1, 0x51]
          @ [2, 0, 2, 0x52, 0x53]
          @ concat (map (Bip32_record example_params) [entry_02AA, entry_03BB])
          @ ([4, 0, 32] @ replicate 32 0x11)
          @ [5, 0, 1, 0x54]
          @ concat (map (Taproot_record example_params) [entry_tap_low, entry_tap])\<rparr>),
        full_POutput\<lparr>Bip32Derivation := [entry_02AA, entry_03BB],
                     TaprootBip32Derivation := [entry_tap_low, entry_tap]\<rparr>)"
    using serialize_order [of full_POutput example_params buffer] n
    unfolding Let_def b t r by simp
  then have "serialize example_params buffer full_POutput
     = (Inr \<lparr>written =
          [1, 0, 1, 0x51]
          @ [2, 0, 2, 0x52, 0x53]
          @ [3, 33] @ key_02AA @ [12, 4, 3, 2, 1, 44, 0, 0, 0, 0, 0, 0, 0]
          @ [3, 33] @ key_03BB @ [4, 13, 12, 11, 10]
          @ [4, 0, 32] @ replicate 32 0x11
          @ [5, 0, 1, 0x54]
          @ [6, 32] @ replicate 32 0x21 @ [5, 0, 13, 12, 11, 10]
          @ [6, 32] @ replicate 32 0x22 @ [41, 1] @ replicate 32 0x33 @ [4, 3, 2, 1, 86, 0, 0, 0],
          room = None\<rparr>,
        full_POutput\<lparr>Bip32Derivation := [entry_02AA, entry_03BB],
                     TaprootBip32Derivation := [entry_tap_low, entry_tap]\<rparr>)"
    by (simp add: r buffer_def)
  with n b t show ?thesis
    by (intro conjI)
qed

section \<open>\<^verbatim>\<open>serialize\<close> sorts the record in place\<close>

text \<open>
  Claim C3, as stated, fails: \<^verbatim>\<open>sort.Sort\<close> and \<^verbatim>\<open>sort.Slice\<close> sort the slices of
  the record itself. After serializing a record whose BIP32 derivations are in the order
  \<open>0x03BB\<dots>\<close>, \<open>0x02AA\<dots>\<close>, the list of the record is in the other order.
\<close>

theorem serialize_mutates_counterexample:
  "Bip32Derivation
     (snd (serialize example_params buffer (NewPsbtOutput None None [entry_03BB, entry_02AA])))
     = [entry_02AA, entry_03BB]
   \<and> Bip32Derivation (NewPsbtOutput None None [entry_03BB, entry_02AA]) = [entry_03BB, entry_02AA]
   \<and> [entry_02AA, entry_03BB] \<noteq> [entry_03BB, entry_02AA]"
  by (simp add: serialize_defs example_defs entry_defs)

text \<open>
  Claim C3, amended. Whether it succeeds or fails, \<^verbatim>\<open>serialize\<close> leaves the redeem
  script, the witness script, the Taproot internal key and the Taproot tap tree of the
  record as they were, and each derivation list with the entries it had; the order of
  the two lists can change.
\<close>

theorem serialize_frame:
  "RedeemScript (snd (serialize p w po)) = RedeemScript po
   \<and> WitnessScript (snd (serialize p w po)) = WitnessScript po
   \<and> TaprootInternalKey (snd (serialize p w po)) = TaprootInternalKey po
   \<and> TaprootTapTree (snd (serialize p w po)) = TaprootTapTree po
   \<and> mset (Bip32Derivation (snd (serialize p w po))) = mset (Bip32Derivation po)
   \<and> mset (TaprootBip32Derivation (snd (serialize p w po))) = mset (TaprootBip32Derivation po)"
  using snd_serialize_cases [of p w po]
  by (elim disjE) (simp_all add: canonical_def sort_by_Bip32 sort_by_Taproot)

section \<open>Serializing twice\<close>

text \<open>
  Claim C9. Calling \<^verbatim>\<open>serialize\<close> a second time on the record, as the first call left
  it, with a writer in the state the first writer started in, has the same outcome: the
  same bytes are written (or the write fails in both calls).
\<close>

theorem serialize_twice:
  "fst (serialize p w (snd (serialize p w po))) = fst (serialize p w po)"
  by (simp add: fst_serialize canonical_snd_serialize)

section \<open>Round trip\<close>

text \<open>
  Claim C1, as stated, fails: \<^verbatim>\<open>deserialize\<close> reads records until it finds the
  separator, and \<^verbatim>\<open>serialize\<close> writes none. On the four bytes that \<^verbatim>\<open>serialize\<close>
  writes for a record with the redeem script \<open>0x51\<close>, \<^verbatim>\<open>deserialize\<close> runs into the end
  of the stream and returns an error.
\<close>

theorem roundtrip_counterexample:
  "serialize example_params buffer (NewPsbtOutput (Some [0x51]) None [])
     = (Inr \<lparr>written = [1, 0, 1, 0x51], room = None\<rparr>, NewPsbtOutput (Some [0x51]) None [])
   \<and> fst (deserialize example_params [1, 0, 1, 0x51] empty_POutput) = Inl ErrTruncated"
  by (simp add: deserialize.simps serialize_defs field_defs stream_defs example_defs)

text \<open>
  Claim C1, amended. For every validly constructed POutput, \<^verbatim>\<open>serialize\<close> into an empty
  buffer succeeds, and \<^verbatim>\<open>deserialize\<close>, run with an empty POutput on the bytes written
  followed by the separator, succeeds, stops behind the separator and yields the original
  record in all six fields, the two derivation lists in their canonical sorted order.
\<close>

theorem roundtrip:
  assumes "distinct_codes p" and "MaxPsbtValueLength p < 2 ^ 64" and "valid_POutput p po"
  shows "serialize p buffer po
           = (Inr \<lparr>written = records p (canonical po), room = None\<rparr>, canonical po)
         \<and> deserialize p (records p (canonical po) @ Separator p # rest) empty_POutput
           = (Inr rest, canonical po)"
proof -
  have f: "fst (serialize p buffer po) = Inr \<lparr>written = records p (canonical po), room = None\<rparr>"
    by (simp add: fst_serialize Write_def buffer_def)
  from snd_serialize_success [OF f] f
  have "serialize p buffer po
      = (Inr \<lparr>written = records p (canonical po), room = None\<rparr>, canonical po)"
    by (simp add: prod_eq_iff)
  moreover from assms(3) have "valid_POutput p (canonical po)"
    by (rule valid_canonical)
  ultimately show ?thesis
    using read_back_records [OF assms(1,2)] by simp
qed

theorem roundtrip_witness:
  "distinct_codes example_params \<and> MaxPsbtValueLength example_params < 2 ^ 64
   \<and> valid_POutput example_params example_POutput
   \<and> canonical example_POutput = example_POutput\<lparr>Bip32Derivation := [entry_02AA, entry_03BB]\<rparr>
   \<and> serialize example_params buffer example_POutput
     = (Inr \<lparr>written =
          [1, 0, 1, 0x51]
          @ [3, 33] @ key_02AA @ [12, 4, 3, 2, 1, 44, 0, 0, 0, 0, 0, 0, 0]
          @ [3, 33] @ key_03BB @ [4, 13, 12, 11, 10]
          @ [4, 0, 32] @ replicate 32 0x11
          @ [6, 32] @ replicate 32 0x22 @ [41, 1] @ replicate 32 0x33 @ [4, 3, 2, 1, 86, 0, 0, 0],
          room = None\<rparr>,
        example_POutput\<lparr>Bip32Derivation := [entry_02AA, entry_03BB]\<rparr>)
   \<and> deserialize example_params
       (([1, 0, 1, 0x51]
          @ [3, 33] @ key_02AA @ [12, 4, 3, 2, 1, 44, 0, 0, 0, 0, 0, 0, 0]
          @ [3, 33] @ key_03BB @ [4, 13, 12, 11, 10]
          @ [4, 0, 32] @ replicate 32 0x11
          @ [6, 32] @ replicate 32 0x22 @ [41, 1] @ replicate 32 0x33 @ [4, 3, 2, 1, 86, 0, 0, 0])
        @ Separator example_params # [7]) empty_POutput
     = (Inr [7], example_POutput\<lparr>Bip32Derivation := [entry_02AA, entry_03BB]\<rparr>)"
proof -
  let ?bytes = "[1, 0, 1, 0x51]
          @ [3, 33] @ key_02AA @ [12, 4, 3, 2, 1, 44, 0, 0, 0, 0, 0, 0, 0]
          @ [3, 33] @ key_03BB @ [4, 13, 12, 11, 10]
          @ [4, 0, 32] @ replicate 32 0x11
          @ [6, 32] @ replicate 32 0x22 @ [41, 1] @ replicate 32 0x33 @ [4, 3, 2, 1, 86, 0, 0, 0]
          :: byte list"
  have c: "distinct_codes example_params"
    by (simp add: distinct_codes_def example_defs)
  have m: "MaxPsbtValueLength example_params < 2 ^ 64"
    by (simp add: example_defs)
  have v: "valid_POutput example_params example_POutput"
    by (simp add: valid_POutput_def valid_optional_def valid_Bip32_def valid_Taproot_def
          validatePubkey_def validateXOnlyPubkey_def Taproot_value_def WriteVarInt_def
          length_SerializeBIP32Derivation example_POutput_def example_params_def
          entry_defs entry_tap_def)
  have k: "canonical example_POutput
      = example_POutput\<lparr>Bip32Derivation := [entry_02AA, entry_03BB]\<rparr>"
    by (simp add: canonical_def sort_by_def Bip32Sorter_Less_def SortBefore_def
          example_POutput_def entry_defs)
  have r: "records example_params (example_POutput\<lparr>Bip32Derivation := [entry_02AA, entry_03BB]\<rparr>)
      = ?bytes"
    by (simp add: records_def optional_record_def Bip32_record_def Taproot_record_def
          Taproot_value_def serialize_defs example_POutput_def example_params_def
          entry_defs entry_tap_def)
  show ?thesis
    using roundtrip [OF c m v, of "[7]"] c m v k
    unfolding k r by (intro conjI) simp_all
qed

end
